theory Spec2Isabelle
  imports Main "HOL-Library.AList"
begin

section \<open>The message client (package messaging)\<close>

text \<open>
  The client talks to three things outside the repository: the TCP dialler, the
  go-stomp connection and \<^verbatim>\<open>json.Marshal\<close>. Their answers are not decided by the
  code, so every operation takes a \<open>world\<close>: the answer each library call gives
  when it is made (\<open>None\<close> is Go's \<^verbatim>\<open>nil\<close> error, \<open>Some e\<close> an error with
  text \<open>e\<close>). What the code hands to the transport is kept in the connection value.
\<close>

datatype level = DebugLevel | InfoLevel | WarnLevel | ErrorLevel

type_synonym log_entry = "level \<times> string"

record subscription =
  sub_id :: nat
  sub_dest :: string

record stomp_conn =
  peer :: string
  login :: "string \<times> string"
  sent :: "(string \<times> string \<times> string) list"
  opened :: nat
  unsubscribed :: "nat list"
  disconnected :: bool

record 'm world =
  dial_err :: "string \<Rightarrow> string \<Rightarrow> string option"
  stomp_err :: "string \<Rightarrow> string option"
  marshal :: "'m \<Rightarrow> string + string"
  send_err :: "string \<Rightarrow> string \<Rightarrow> string option"
  subscribe_err :: "string \<Rightarrow> string option"
  unsubscribe_err :: "subscription \<Rightarrow> string option"

text \<open>
  The errors the package builds with \<^verbatim>\<open>fmt.Errorf\<close>, one constructor per format
  string, carrying the arguments of the format.
\<close>

datatype error =
    ErrDial string
  | ErrStompConnect string
  | ErrNotConnected
  | ErrAlreadySubscribed string
  | ErrSubscribe string string
  | ErrMarshal string
  | ErrSendQueue string string
  | ErrSendTopic string string
  | ErrNotSubscribed string
  | ErrUnsubscribe string string

fun error_text :: "error \<Rightarrow> string" where
  "error_text (ErrDial e) = ''failed to connect to message broker: '' @ e"
| "error_text (ErrStompConnect e) = ''failed to establish STOMP connection: '' @ e"
| "error_text ErrNotConnected = ''not connected to message broker''"
| "error_text (ErrAlreadySubscribed t) = ''already subscribed to topic: '' @ t"
| "error_text (ErrSubscribe t e) = ''failed to subscribe to topic '' @ t @ '': '' @ e"
| "error_text (ErrMarshal e) = ''failed to marshal message: '' @ e"
| "error_text (ErrSendQueue q e) = ''failed to send message to queue '' @ q @ '': '' @ e"
| "error_text (ErrSendTopic t e) = ''failed to send message to topic '' @ t @ '': '' @ e"
| "error_text (ErrNotSubscribed t) = ''not subscribed to topic: '' @ t"
| "error_text (ErrUnsubscribe t e) = ''failed to unsubscribe from topic '' @ t @ '': '' @ e"

text \<open>
  A message read from \<^verbatim>\<open>sub.C\<close>, a handler \<^verbatim>\<open>func([]byte) error\<close>, and the
  goroutine \<^verbatim>\<open>SubscribeToTopic\<close> starts (its closure holds the topic, the
  subscription and the handler).
\<close>

record message =
  msg_err :: "string option"
  msg_body :: string

type_synonym handler = "string \<Rightarrow> string option"

record consumer =
  c_topic :: string
  c_sub :: subscription
  c_handler :: handler

text \<open>
  \<^verbatim>\<open>MessageClient\<close>. The Go map \<^verbatim>\<open>subscriptions\<close> is an association list read with
  \<open>map_of\<close>, written with \<open>AList.update\<close> and \<open>AList.delete\<close>; the logger is the list
  of entries written so far; \<open>consumers\<close> are the goroutines started and not yet
  returned. \<open>panicked\<close> is not a field of the struct: it records that a goroutine
  of the process has panicked, which brings the whole process down. The two mutexes
  are not modelled: each call runs as one step.
\<close>

record message_client =
  conn :: "stomp_conn option"
  subscriptions :: "(string \<times> subscription) list"
  logger :: "log_entry list"
  url :: string
  connected :: bool
  consumers :: "consumer list"
  panicked :: bool

definition log_to :: "level \<Rightarrow> string \<Rightarrow> message_client \<Rightarrow> message_client" where
  "log_to l s mc = mc\<lparr>logger := logger mc @ [(l, s)]\<rparr>"

text \<open>
  \<^verbatim>\<open>net.JoinHostPort\<close>: a host with a colon is bracketed. In \<open>connect\<close>, the
  \<^verbatim>\<open>netConn.Close()\<close> after a failed STOMP handshake leaves nothing in the client.
\<close>

definition JoinHostPort :: "string \<Rightarrow> string \<Rightarrow> string" where
  "JoinHostPort host port =
     (if CHR '':'' \<in> set host then ''['' @ host @ '']:'' @ port
      else host @ '':'' @ port)"

definition connect :: "'m world \<Rightarrow> message_client \<Rightarrow> error option \<times> message_client" where
  "connect w mc =
     (let host = ''artemis-service''; port = ''61613'';
          addr = JoinHostPort host port
      in case dial_err w ''tcp'' addr of
           Some e \<Rightarrow> (Some (ErrDial e), mc)
         | None \<Rightarrow>
             (case stomp_err w addr of
                Some e \<Rightarrow> (Some (ErrStompConnect e), mc)
              | None \<Rightarrow>
                  (None,
                   log_to InfoLevel ''Connected to message broker''
                     (mc\<lparr>conn := Some \<lparr>peer = addr, login = (''admin'', ''admin''),
                                       sent = [], opened = 0, unsubscribed = [],
                                       disconnected = False\<rparr>,
                         connected := True\<rparr>))))"

definition NewMessageClient ::
  "'m world \<Rightarrow> string \<Rightarrow> log_entry list \<Rightarrow> error + message_client" where
  "NewMessageClient w brokerURL lg =
     (let client = \<lparr>conn = None, subscriptions = [], logger = lg, url = brokerURL,
                    connected = False, consumers = [], panicked = False\<rparr>
      in case connect w client of
           (Some err, _) \<Rightarrow> Inl err
         | (None, client') \<Rightarrow> Inr client')"

definition IsConnected :: "message_client \<Rightarrow> bool" where
  "IsConnected mc = (connected mc \<and> conn mc \<noteq> None)"

text \<open>
  \<^verbatim>\<open>SubscribeToTopic\<close>. After the \<open>IsConnected\<close> test \<open>conn mc\<close> is not \<open>None\<close>;
  the branch for \<open>None\<close> is there only because the case must be total.
\<close>

definition SubscribeToTopic ::
  "'m world \<Rightarrow> string \<Rightarrow> handler \<Rightarrow> message_client \<Rightarrow> error option \<times> message_client" where
  "SubscribeToTopic w topic h mc =
     (if \<not> IsConnected mc then (Some ErrNotConnected, mc)
      else if map_of (subscriptions mc) topic \<noteq> None
        then (Some (ErrAlreadySubscribed topic), mc)
      else
        (case conn mc of
           None \<Rightarrow> (Some ErrNotConnected, mc)
         | Some c \<Rightarrow>
             (case subscribe_err w topic of
                Some e \<Rightarrow> (Some (ErrSubscribe topic e), mc)
              | None \<Rightarrow>
                  (let sub = \<lparr>sub_id = opened c, sub_dest = topic\<rparr>
                   in (None,
                       log_to InfoLevel (''Subscribed to topic: '' @ topic)
                         (mc\<lparr>conn := Some (c\<lparr>opened := Suc (opened c)\<rparr>),
                             subscriptions := AList.update topic sub (subscriptions mc),
                             consumers := consumers mc @
                               [\<lparr>c_topic = topic, c_sub = sub, c_handler = h\<rparr>]\<rparr>))))))"

text \<open>
  The body of the goroutine. \<open>consumer_recv\<close> is one turn of its loop on what
  \<^verbatim>\<open>msg := <-sub.C\<close> yields: \<open>Some msg\<close> for a message, \<open>None\<close> for the
  \<^verbatim>\<open>nil\<close> pointer a closed channel yields. On \<^verbatim>\<open>nil\<close> the test
  \<^verbatim>\<open>msg.Err != nil\<close> dereferences a nil pointer and the goroutine panics
  (\<open>Panic\<close>); \<open>Break\<close> is the \<^verbatim>\<open>break\<close>. \<open>consumer_cleanup\<close> is the code
  after the loop. \<open>consume\<close> runs the goroutine on the messages that arrive on its
  channel while the channel is open; at the end of the list it is blocked on the
  channel (\<open>Waiting\<close>). The second component of the result lists the bodies the
  handler was called with, in order.
\<close>

datatype consumer_status = Waiting | Exited | Panicked

datatype recv = Continue | Break | Panic

definition consumer_recv ::
  "consumer \<Rightarrow> message option \<Rightarrow> message_client \<Rightarrow> recv \<times> message_client" where
  "consumer_recv cn read mc =
     (case read of
        None \<Rightarrow> (Panic, mc\<lparr>panicked := True\<rparr>)
      | Some msg \<Rightarrow>
          (case msg_err msg of
             Some e \<Rightarrow>
               (Break,
                log_to ErrorLevel
                  (''Error receiving message from topic '' @ c_topic cn @ '': '' @ e) mc)
           | None \<Rightarrow>
               (case c_handler cn (msg_body msg) of
                  Some err \<Rightarrow>
                    (Continue,
                     log_to ErrorLevel
                       (''Error handling message from topic '' @ c_topic cn @ '': '' @ err) mc)
                | None \<Rightarrow> (Continue, mc))))"

definition consumer_cleanup :: "consumer \<Rightarrow> message_client \<Rightarrow> message_client" where
  "consumer_cleanup cn mc =
     log_to InfoLevel (''Unsubscribed from topic: '' @ c_topic cn)
       (mc\<lparr>subscriptions := AList.delete (c_topic cn) (subscriptions mc)\<rparr>)"

fun consume ::
  "consumer \<Rightarrow> message list \<Rightarrow> message_client \<Rightarrow> consumer_status \<times> string list \<times> message_client" where
  "consume cn [] mc = (Waiting, [], mc)"
| "consume cn (msg # rest) mc =
     (case consumer_recv cn (Some msg) mc of
        (Panic, mc') \<Rightarrow> (Panicked, [], mc')
      | (Break, mc') \<Rightarrow> (Exited, [], consumer_cleanup cn mc')
      | (Continue, mc') \<Rightarrow>
          (case consume cn rest mc' of
             (st, calls, mc'') \<Rightarrow> (st, msg_body msg # calls, mc'')))"

definition PublishToQueue ::
  "'m world \<Rightarrow> string \<Rightarrow> 'm \<Rightarrow> message_client \<Rightarrow> error option \<times> message_client" where
  "PublishToQueue w queue msg mc =
     (if \<not> IsConnected mc then (Some ErrNotConnected, mc)
      else
        (case marshal w msg of
           Inl e \<Rightarrow> (Some (ErrMarshal e), mc)
         | Inr data \<Rightarrow>
             (case conn mc of
                None \<Rightarrow> (Some ErrNotConnected, mc)
              | Some c \<Rightarrow>
                  (case send_err w queue data of
                     Some e \<Rightarrow> (Some (ErrSendQueue queue e), mc)
                   | None \<Rightarrow>
                       (None,
                        log_to DebugLevel (''Published message to queue: '' @ queue)
                          (mc\<lparr>conn := Some
                                (c\<lparr>sent := sent c @
                                     [(queue, ''application/json'', data)]\<rparr>)\<rparr>))))))"

definition PublishToTopic ::
  "'m world \<Rightarrow> string \<Rightarrow> 'm \<Rightarrow> message_client \<Rightarrow> error option \<times> message_client" where
  "PublishToTopic w topic msg mc =
     (if \<not> IsConnected mc then (Some ErrNotConnected, mc)
      else
        (case marshal w msg of
           Inl e \<Rightarrow> (Some (ErrMarshal e), mc)
         | Inr data \<Rightarrow>
             (case conn mc of
                None \<Rightarrow> (Some ErrNotConnected, mc)
              | Some c \<Rightarrow>
                  (case send_err w topic data of
                     Some e \<Rightarrow> (Some (ErrSendTopic topic e), mc)
                   | None \<Rightarrow>
                       (None,
                        log_to DebugLevel (''Published message to topic: '' @ topic)
                          (mc\<lparr>conn := Some
                                (c\<lparr>sent := sent c @
                                     [(topic, ''application/json'', data)]\<rparr>)\<rparr>))))))"

text \<open>
  \<^verbatim>\<open>sub.Unsubscribe()\<close> on the transport. When the library accepts it, the
  subscription's id is recorded in the connection and the library closes the
  subscription's channel \<^verbatim>\<open>sub.C\<close>. A goroutine blocked on a closed channel is
  woken and reads \<^verbatim>\<open>nil\<close>: \<open>wake_closed\<close> gives every consumer whose channel
  is closed that turn of its loop. A call the library refuses (here, and for
  \<^verbatim>\<open>Send\<close> and \<^verbatim>\<open>Subscribe\<close> above) records nothing and closes nothing.
\<close>

definition channel_closed :: "message_client \<Rightarrow> subscription \<Rightarrow> bool" where
  "channel_closed mc sub =
     (case conn mc of
        None \<Rightarrow> False
      | Some c \<Rightarrow> sub_id sub \<in> set (unsubscribed c))"

definition wake_closed :: "message_client \<Rightarrow> message_client" where
  "wake_closed mc =
     fold (\<lambda>cn m. if channel_closed m (c_sub cn) then snd (consumer_recv cn None m) else m)
       (consumers mc) mc"

definition transport_unsubscribe ::
  "'m world \<Rightarrow> subscription \<Rightarrow> message_client \<Rightarrow> string option \<times> message_client" where
  "transport_unsubscribe w sub mc =
     (case unsubscribe_err w sub of
        Some e \<Rightarrow> (Some e, mc)
      | None \<Rightarrow>
          (None,
           wake_closed
             (mc\<lparr>conn := map_option
                   (\<lambda>c. c\<lparr>unsubscribed := unsubscribed c @ [sub_id sub]\<rparr>) (conn mc)\<rparr>)))"

definition Unsubscribe ::
  "'m world \<Rightarrow> string \<Rightarrow> message_client \<Rightarrow> error option \<times> message_client" where
  "Unsubscribe w topic mc =
     (case map_of (subscriptions mc) topic of
        None \<Rightarrow> (Some (ErrNotSubscribed topic), mc)
      | Some sub \<Rightarrow>
          (case transport_unsubscribe w sub mc of
             (Some e, _) \<Rightarrow> (Some (ErrUnsubscribe topic e), mc)
           | (None, mc') \<Rightarrow>
               (None,
                log_to InfoLevel (''Unsubscribed from topic: '' @ topic)
                  (mc'\<lparr>subscriptions := AList.delete topic (subscriptions mc')\<rparr>))))"

text \<open>
  \<^verbatim>\<open>Close\<close>. The \<^verbatim>\<open>range\<close> loop visits every entry of the map once (Go leaves
  the order open; here it is the order of the list), drops the error of
  \<^verbatim>\<open>sub.Unsubscribe()\<close>, deletes the entry and logs. An accepted
  \<^verbatim>\<open>sub.Unsubscribe()\<close> wakes the subscription's consumer on a closed channel, and
  that goroutine panics. The panic is raised in the consumer's goroutine, not at a
  statement of \<^verbatim>\<open>Close\<close>, so the model lets \<^verbatim>\<open>Close\<close> run to its end and
  returns its state with \<open>panicked\<close> set: the process is going down.
\<close>

fun close_subscriptions ::
  "'m world \<Rightarrow> (string \<times> subscription) list \<Rightarrow> message_client \<Rightarrow> message_client" where
  "close_subscriptions w [] mc = mc"
| "close_subscriptions w ((topic, sub) # rest) mc =
     (let mc1 = snd (transport_unsubscribe w sub mc);
          mc2 = mc1\<lparr>subscriptions := AList.delete topic (subscriptions mc1)\<rparr>;
          mc3 = log_to InfoLevel (''Unsubscribed from topic: '' @ topic) mc2
      in close_subscriptions w rest mc3)"

definition Close :: "'m world \<Rightarrow> message_client \<Rightarrow> message_client" where
  "Close w mc =
     (if \<not> connected mc \<or> conn mc = None then mc
      else
        (let mc1 = close_subscriptions w (subscriptions mc) mc;
             mc2 = mc1\<lparr>conn := map_option (\<lambda>c. c\<lparr>disconnected := True\<rparr>) (conn mc1),
                       connected := False\<rparr>
         in log_to InfoLevel ''Disconnected from message broker'' mc2))"

text \<open>
  Runs of the client. An \<open>op\<close> is one call of an exported method, or
  \<open>OpReceive k msg\<close>: the \<open>k\<close>-th running goroutine reads from its channel and
  does one turn of its loop (and the cleanup, when it breaks); it reads \<open>msg\<close> when
  its channel is open and \<^verbatim>\<open>nil\<close> when the channel has been closed. Each step of
  a script comes with the world it meets. A process that has panicked runs nothing
  more: \<open>exec\<close> leaves a panicked client as it is.
\<close>

datatype 'm op =
    OpPublishToQueue string 'm
  | OpPublishToTopic string 'm
  | OpSubscribeToTopic string handler
  | OpUnsubscribe string
  | OpIsConnected
  | OpClose
  | OpReceive nat message

definition consumer_turn :: "nat \<Rightarrow> message \<Rightarrow> message_client \<Rightarrow> message_client" where
  "consumer_turn k msg mc =
     (if k < length (consumers mc) then
        (let cn = consumers mc ! k;
             read = (if channel_closed mc (c_sub cn) then None else Some msg)
         in case consumer_recv cn read mc of
              (Panic, mc') \<Rightarrow> mc'
            | (Continue, mc') \<Rightarrow> mc'
            | (Break, mc') \<Rightarrow>
                consumer_cleanup cn
                  (mc'\<lparr>consumers := take k (consumers mc') @ drop (Suc k) (consumers mc')\<rparr>))
      else mc)"

fun call :: "'m world \<Rightarrow> 'm op \<Rightarrow> message_client \<Rightarrow> message_client" where
  "call w (OpPublishToQueue q m) mc = snd (PublishToQueue w q m mc)"
| "call w (OpPublishToTopic t m) mc = snd (PublishToTopic w t m mc)"
| "call w (OpSubscribeToTopic t h) mc = snd (SubscribeToTopic w t h mc)"
| "call w (OpUnsubscribe t) mc = snd (Unsubscribe w t mc)"
| "call w OpIsConnected mc = mc"
| "call w OpClose mc = Close w mc"
| "call w (OpReceive k msg) mc = consumer_turn k msg mc"

definition exec :: "'m world \<Rightarrow> 'm op \<Rightarrow> message_client \<Rightarrow> message_client" where
  "exec w a mc = (if panicked mc then mc else call w a mc)"

fun run :: "('m world \<times> 'm op) list \<Rightarrow> message_client \<Rightarrow> message_client" where
  "run [] mc = mc"
| "run ((w, a) # script) mc = run script (exec w a mc)"

section \<open>The command handlers (package gateway)\<close>

text \<open>
  A JSON value stands for Go's \<^verbatim>\<open>interface{}\<close>; the message a handler publishes
  is a \<^verbatim>\<open>map[string]interface{}\<close>, here the list of its entries. The handler gets
  what \<^verbatim>\<open>c.ShouldBindJSON\<close> returned (\<open>Inl\<close> the error text, \<open>Inr\<close> the bound
  request) and the text of \<^verbatim>\<open>time.Now().UTC().Format(time.RFC3339)\<close>; a
  \<^verbatim>\<open>time.Time\<close> field of a request is kept as its RFC 3339 text.
\<close>

datatype jvalue =
    JNull
  | JBool bool
  | JNumber string
  | JString string
  | JArray "jvalue list"
  | JObject "(string \<times> jvalue) list"

type_synonym command = "(string \<times> jvalue) list"

datatype start_bot_request = StartBotRequest (start_BotID: string) (start_Config: jvalue)

datatype stop_bot_request = StopBotRequest (stop_BotID: string)

datatype fetch_history_request =
  FetchHistoryRequest (Symbol: string) (StartDate: string) (EndDate: string)

record response =
  status :: nat
  payload :: "(string \<times> string) list"

definition StatusAccepted :: nat where "StatusAccepted = 202"
definition StatusBadRequest :: nat where "StatusBadRequest = 400"
definition StatusInternalServerError :: nat where "StatusInternalServerError = 500"
definition StatusServiceUnavailable :: nat where "StatusServiceUnavailable = 503"

record gateway =
  messageClient :: "message_client option"
  gw_logger :: "log_entry list"

definition handleStartBot ::
  "command world \<Rightarrow> string \<Rightarrow> string + start_bot_request \<Rightarrow> gateway \<Rightarrow> response \<times> gateway" where
  "handleStartBot w now bound g =
     (case messageClient g of
        None \<Rightarrow>
          (\<lparr>status = StatusServiceUnavailable,
            payload = [(''error'', ''Message broker not available'')]\<rparr>, g)
      | Some mc \<Rightarrow>
          (case bound of
             Inl e \<Rightarrow> (\<lparr>status = StatusBadRequest, payload = [(''error'', e)]\<rparr>, g)
           | Inr request \<Rightarrow>
               (let message = [(''command'', JString ''start''),
                               (''botId'', JString (start_BotID request)),
                               (''config'', start_Config request),
                               (''timestamp'', JString now)]
                in case PublishToQueue w ''queue://commands.start_bot'' message mc of
                     (Some err, mc') \<Rightarrow>
                       (\<lparr>status = StatusInternalServerError,
                         payload = [(''error'', ''Failed to send command'')]\<rparr>,
                        g\<lparr>messageClient := Some mc',
                          gw_logger := gw_logger g @
                            [(ErrorLevel, ''Failed to publish start bot command: '' @
                                error_text err)]\<rparr>)
                   | (None, mc') \<Rightarrow>
                       (\<lparr>status = StatusAccepted,
                         payload = [(''message'', ''Start bot command sent''),
                                    (''botId'', start_BotID request)]\<rparr>,
                        g\<lparr>messageClient := Some mc'\<rparr>))))"

definition handleStopBot ::
  "command world \<Rightarrow> string \<Rightarrow> string + stop_bot_request \<Rightarrow> gateway \<Rightarrow> response \<times> gateway" where
  "handleStopBot w now bound g =
     (case messageClient g of
        None \<Rightarrow>
          (\<lparr>status = StatusServiceUnavailable,
            payload = [(''error'', ''Message broker not available'')]\<rparr>, g)
      | Some mc \<Rightarrow>
          (case bound of
             Inl e \<Rightarrow> (\<lparr>status = StatusBadRequest, payload = [(''error'', e)]\<rparr>, g)
           | Inr request \<Rightarrow>
               (let message = [(''command'', JString ''stop''),
                               (''botId'', JString (stop_BotID request)),
                               (''timestamp'', JString now)]
                in case PublishToQueue w ''queue://commands.stop_bot'' message mc of
                     (Some err, mc') \<Rightarrow>
                       (\<lparr>status = StatusInternalServerError,
                         payload = [(''error'', ''Failed to send command'')]\<rparr>,
                        g\<lparr>messageClient := Some mc',
                          gw_logger := gw_logger g @
                            [(ErrorLevel, ''Failed to publish stop bot command: '' @
                                error_text err)]\<rparr>)
                   | (None, mc') \<Rightarrow>
                       (\<lparr>status = StatusAccepted,
                         payload = [(''message'', ''Stop bot command sent''),
                                    (''botId'', stop_BotID request)]\<rparr>,
                        g\<lparr>messageClient := Some mc'\<rparr>))))"

definition handleFetchHistory ::
  "command world \<Rightarrow> string \<Rightarrow> string + fetch_history_request \<Rightarrow> gateway \<Rightarrow> response \<times> gateway" where
  "handleFetchHistory w now bound g =
     (case messageClient g of
        None \<Rightarrow>
          (\<lparr>status = StatusServiceUnavailable,
            payload = [(''error'', ''Message broker not available'')]\<rparr>, g)
      | Some mc \<Rightarrow>
          (case bound of
             Inl e \<Rightarrow> (\<lparr>status = StatusBadRequest, payload = [(''error'', e)]\<rparr>, g)
           | Inr request \<Rightarrow>
               (let message = [(''command'', JString ''fetch_history''),
                               (''symbol'', JString (Symbol request)),
                               (''startDate'', JString (StartDate request)),
                               (''endDate'', JString (EndDate request)),
                               (''timestamp'', JString now)]
                in case PublishToQueue w ''queue://commands.fetch.history'' message mc of
                     (Some err, mc') \<Rightarrow>
                       (\<lparr>status = StatusInternalServerError,
                         payload = [(''error'', ''Failed to send command'')]\<rparr>,
                        g\<lparr>messageClient := Some mc',
                          gw_logger := gw_logger g @
                            [(ErrorLevel, ''Failed to publish fetch history command: '' @
                                error_text err)]\<rparr>)
                   | (None, mc') \<Rightarrow>
                       (\<lparr>status = StatusAccepted,
                         payload = [(''message'', ''Fetch history command sent''),
                                    (''symbol'', Symbol request)]\<rparr>,
                        g\<lparr>messageClient := Some mc'\<rparr>))))"

section \<open>The connection hub (package websocket)\<close>

text \<open>
  Modelled from the spec: the hub (\<^verbatim>\<open>internal/websocket/hub.go\<close>) is not among the
  sources; only its callers are. The definitions below follow sections 3 and 4.1 of
  the specification. A connection has a bounded FIFO outbound queue; the hub keeps
  the ids of the live connections and reaches each connection through its id.
  The coordinating loop takes one request at a time, so each request is a function on
  the hub.
\<close>

record envelope =
  env_type :: string
  env_data :: jvalue

datatype conn_state = Active | Closing | Closed

record connection =
  user :: "string option"
  queue :: "envelope list"
  capacity :: nat
  cstate :: conn_state

record hub =
  store :: "nat \<Rightarrow> connection option"
  registry :: "nat list"
  next_id :: nat
  hub_log :: "string list"

text \<open>
  Modelled from the spec: \<open>register\<close> adds the connection to the live set under a
  fresh id and never fails; \<open>unregister\<close> is an idempotent removal that releases the
  connection (no-op if the id is absent).
\<close>

definition register :: "connection \<Rightarrow> hub \<Rightarrow> nat \<times> hub" where
  "register c h =
     (next_id h,
      h\<lparr>store := (store h)(next_id h \<mapsto> c),
        registry := registry h @ [next_id h],
        next_id := Suc (next_id h)\<rparr>)"

definition unregister :: "nat \<Rightarrow> hub \<Rightarrow> hub" where
  "unregister i h =
     (if i \<in> set (registry h) then
        h\<lparr>store := (store h)(i := map_option (\<lambda>c. c\<lparr>cstate := Closed\<rparr>) (store h i)),
          registry := removeAll i (registry h)\<rparr>
      else h)"

text \<open>
  Modelled from the spec: the per-connection enqueue is a non-blocking send, refused
  when the queue is full; the hub then evicts the connection (logs, and takes the
  normal unregister path). \<open>broadcast\<close> walks the registry as it is at the call and
  reports no error to its caller.
\<close>

definition enqueue :: "envelope \<Rightarrow> connection \<Rightarrow> connection option" where
  "enqueue e c =
     (if length (queue c) < capacity c then Some (c\<lparr>queue := queue c @ [e]\<rparr>) else None)"

definition deliver :: "envelope \<Rightarrow> nat \<Rightarrow> hub \<Rightarrow> hub" where
  "deliver e i h =
     (case store h i of
        None \<Rightarrow> h
      | Some c \<Rightarrow>
          (case enqueue e c of
             Some c' \<Rightarrow> h\<lparr>store := (store h)(i \<mapsto> c')\<rparr>
           | None \<Rightarrow>
               unregister i (h\<lparr>hub_log := hub_log h @ [''evicted slow consumer'']\<rparr>)))"

definition broadcast :: "envelope \<Rightarrow> hub \<Rightarrow> string option \<times> hub" where
  "broadcast e h = (None, fold (deliver e) (registry h) h)"

section \<open>Specification-side notions and example values\<close>

text \<open>
  The entries the consumer loop writes to the log for the handler's failures on a
  list of message bodies, in order (used to state what "is logged").
\<close>

definition handling_errors :: "consumer \<Rightarrow> string list \<Rightarrow> log_entry list" where
  "handling_errors cn bodies =
     concat (map (\<lambda>b. case c_handler cn b of
                         None \<Rightarrow> []
                       | Some err \<Rightarrow>
                           [(ErrorLevel,
                             ''Error handling message from topic '' @ c_topic cn @ '': '' @ err)])
                 bodies)"

text \<open>
  What a running consumer serves: its topic and its subscription. \<open>manager_inv\<close>
  collects what holds of the active set in every state a client reaches: the topic
  names of the map are pairwise distinct; so are the topics of the running consumers;
  every entry of the map is served by a running consumer; entries exist only while
  connected; and, while the process is up and connected, every running consumer
  serves an entry of the map.
\<close>

definition consumer_key :: "consumer \<Rightarrow> string \<times> subscription" where
  "consumer_key cn = (c_topic cn, c_sub cn)"

definition manager_inv :: "message_client \<Rightarrow> bool" where
  "manager_inv mc =
     (distinct (map fst (subscriptions mc)) \<and>
      distinct (map c_topic (consumers mc)) \<and>
      set (subscriptions mc) \<subseteq> consumer_key ` set (consumers mc) \<and>
      (subscriptions mc = [] \<or> IsConnected mc) \<and>
      (\<not> panicked mc \<and> IsConnected mc \<longrightarrow>
         consumer_key ` set (consumers mc) \<subseteq> set (subscriptions mc)))"

text \<open>
  A world where every library call succeeds, one where every call fails, one where
  only the address \<open>artemis-service:61613\<close> can be dialled, one where the payload
  is serialized and every write is refused, a handler that rejects the body \<open>bad\<close>,
  and the client \<open>NewMessageClient\<close> returns in the first world.
\<close>

definition calm_world :: "command world" where
  "calm_world =
     \<lparr>dial_err = (\<lambda>_ _. None), stomp_err = (\<lambda>_. None), marshal = (\<lambda>_. Inr ''{}''),
      send_err = (\<lambda>_ _. None), subscribe_err = (\<lambda>_. None),
      unsubscribe_err = (\<lambda>_. None)\<rparr>"

definition stormy_world :: "command world" where
  "stormy_world =
     \<lparr>dial_err = (\<lambda>_ _. Some ''connection refused''),
      stomp_err = (\<lambda>_. Some ''login rejected''),
      marshal = (\<lambda>_. Inl ''unsupported type''),
      send_err = (\<lambda>_ _. Some ''broken pipe''),
      subscribe_err = (\<lambda>_. Some ''broken pipe''),
      unsubscribe_err = (\<lambda>_. Some ''broken pipe'')\<rparr>"

definition single_route_world :: "command world" where
  "single_route_world =
     \<lparr>dial_err = (\<lambda>n a. if a = ''artemis-service:61613'' then None
                          else Some ''no route to host''),
      stomp_err = (\<lambda>_. None), marshal = (\<lambda>_. Inr ''{}''),
      send_err = (\<lambda>_ _. None), subscribe_err = (\<lambda>_. None),
      unsubscribe_err = (\<lambda>_. None)\<rparr>"

definition deaf_world :: "command world" where
  "deaf_world =
     \<lparr>dial_err = (\<lambda>_ _. None), stomp_err = (\<lambda>_. None), marshal = (\<lambda>_. Inr ''{}''),
      send_err = (\<lambda>_ _. Some ''broken pipe''), subscribe_err = (\<lambda>_. None),
      unsubscribe_err = (\<lambda>_. None)\<rparr>"

definition picky_handler :: handler where
  "picky_handler b = (if b = ''bad'' then Some ''cannot decode'' else None)"

definition demo_client :: message_client where
  "demo_client =
     \<lparr>conn = Some \<lparr>peer = ''artemis-service:61613'', login = (''admin'', ''admin''),
                   sent = [], opened = 0, unsubscribed = [], disconnected = False\<rparr>,
      subscriptions = [],
      logger = [(InfoLevel, ''Connected to message broker'')],
      url = ''amqp://broker.internal:5672'',
      connected = True,
      consumers = [],
      panicked = False\<rparr>"

definition demo_subscribed :: message_client where
  "demo_subscribed =
     snd (SubscribeToTopic calm_world ''topic://trades.filled'' picky_handler demo_client)"

text \<open>
  A gateway whose client has been closed, one whose client is connected, one with no
  client, and well-formed bodies for the three command requests.
\<close>

definition closed_gateway :: gateway where
  "closed_gateway = \<lparr>messageClient = Some (Close calm_world demo_client), gw_logger = []\<rparr>"

definition live_gateway :: gateway where
  "live_gateway = \<lparr>messageClient = Some demo_client, gw_logger = []\<rparr>"

definition no_broker_gateway :: gateway where
  "no_broker_gateway = \<lparr>messageClient = None, gw_logger = []\<rparr>"

definition start_body :: "string + start_bot_request" where
  "start_body = Inr (StartBotRequest ''bot-7'' JNull)"

definition stop_body :: "string + stop_bot_request" where
  "stop_body = Inr (StopBotRequest ''bot-7'')"

definition history_body :: "string + fetch_history_request" where
  "history_body =
     Inr (FetchHistoryRequest ''BTC-USD'' ''2024-01-01T00:00:00Z'' ''2024-02-01T00:00:00Z'')"

text \<open>
  A hub with three connections: 0 has room, 1 is full, both registered; 2 was
  unregistered before.
\<close>

definition trade_envelope :: envelope where
  "trade_envelope =
     \<lparr>env_type = ''trades.filled'', env_data = JObject [(''symbol'', JString ''BTC-USD'')]\<rparr>"

definition roomy_connection :: connection where
  "roomy_connection = \<lparr>user = None, queue = [], capacity = 2, cstate = Active\<rparr>"

definition full_connection :: connection where
  "full_connection =
     \<lparr>user = Some ''user123'', queue = [trade_envelope], capacity = 1, cstate = Active\<rparr>"

definition demo_hub :: hub where
  "demo_hub =
     \<lparr>store = [0 \<mapsto> roomy_connection, 1 \<mapsto> full_connection,
               2 \<mapsto> roomy_connection\<lparr>cstate := Closed\<rparr>],
      registry = [0, 1], next_id = 3, hub_log = []\<rparr>"

section \<open>Properties of the message client\<close>

lemma log_to_simps:
  "conn (log_to l s mc) = conn mc"
  "subscriptions (log_to l s mc) = subscriptions mc"
  "connected (log_to l s mc) = connected mc"
  "consumers (log_to l s mc) = consumers mc"
  "panicked (log_to l s mc) = panicked mc"
  "url (log_to l s mc) = url mc"
  "logger (log_to l s mc) = logger mc @ [(l, s)]"
  by (simp_all add: log_to_def)

lemma IsConnected_log_to: "IsConnected (log_to l s mc) = IsConnected mc"
  by (simp add: IsConnected_def log_to_simps)

subsection \<open>What each operation does to the connection flag and to the active set\<close>

lemma channel_closed_panicked:
  "channel_closed (mc\<lparr>panicked := b\<rparr>) sub = channel_closed mc sub"
  by (simp add: channel_closed_def)

lemma wake_fold:
  "fold (\<lambda>cn m. if channel_closed m (c_sub cn) then snd (consumer_recv cn None m) else m) cs m =
     m\<lparr>panicked := panicked m \<or> (\<exists>cn \<in> set cs. channel_closed m (c_sub cn))\<rparr>"
proof (induction cs arbitrary: m)
  case Nil
  then show ?case by simp
next
  case (Cons cn cs)
  show ?case
  proof (cases "channel_closed m (c_sub cn)")
    case True
    then show ?thesis
      by (simp add: Cons.IH consumer_recv_def channel_closed_panicked)
  next
    case False
    then show ?thesis
      by (simp add: Cons.IH)
  qed
qed

lemma wake_closed_eq:
  "wake_closed mc =
     mc\<lparr>panicked := panicked mc \<or> (\<exists>cn \<in> set (consumers mc). channel_closed mc (c_sub cn))\<rparr>"
  by (simp add: wake_closed_def wake_fold)

lemma transport_unsubscribe_frame:
  "connected (snd (transport_unsubscribe w sub mc)) = connected mc"
  "(conn (snd (transport_unsubscribe w sub mc)) = None) = (conn mc = None)"
  "subscriptions (snd (transport_unsubscribe w sub mc)) = subscriptions mc"
  "consumers (snd (transport_unsubscribe w sub mc)) = consumers mc"
  by (simp_all add: transport_unsubscribe_def wake_closed_eq split: option.splits)

lemma transport_unsubscribe_panicked_mono:
  "panicked mc \<Longrightarrow> panicked (snd (transport_unsubscribe w sub mc))"
  by (simp add: transport_unsubscribe_def wake_closed_eq split: option.splits)

lemma transport_unsubscribe_wakes:
  assumes "unsubscribe_err w sub = None" and "conn mc \<noteq> None"
    and "cn \<in> set (consumers mc)" and "c_sub cn = sub"
  shows "panicked (snd (transport_unsubscribe w sub mc))"
proof -
  from assms(2) obtain c where c: "conn mc = Some c"
    by blast
  let ?mc' = "mc\<lparr>conn := map_option
                 (\<lambda>c. c\<lparr>unsubscribed := unsubscribed c @ [sub_id sub]\<rparr>) (conn mc)\<rparr>"
  have "channel_closed ?mc' (c_sub cn)"
    using c assms(4) by (simp add: channel_closed_def)
  with assms(3) have "\<exists>cn \<in> set (consumers ?mc'). channel_closed ?mc' (c_sub cn)"
    by auto
  with assms(1) show ?thesis
    by (simp add: transport_unsubscribe_def wake_closed_eq)
qed

lemma IsConnected_transport_unsubscribe:
  "IsConnected (snd (transport_unsubscribe w sub mc)) = IsConnected mc"
  by (simp add: IsConnected_def transport_unsubscribe_frame)

lemma PublishToQueue_frame:
  "IsConnected (snd (PublishToQueue w d m mc)) = IsConnected mc"
  "subscriptions (snd (PublishToQueue w d m mc)) = subscriptions mc"
  "consumers (snd (PublishToQueue w d m mc)) = consumers mc"
  "panicked (snd (PublishToQueue w d m mc)) = panicked mc"
  by (auto simp: PublishToQueue_def IsConnected_def log_to_simps split: sum.splits option.splits)

lemma PublishToTopic_frame:
  "IsConnected (snd (PublishToTopic w d m mc)) = IsConnected mc"
  "subscriptions (snd (PublishToTopic w d m mc)) = subscriptions mc"
  "consumers (snd (PublishToTopic w d m mc)) = consumers mc"
  "panicked (snd (PublishToTopic w d m mc)) = panicked mc"
  by (auto simp: PublishToTopic_def IsConnected_def log_to_simps split: sum.splits option.splits)

lemma SubscribeToTopic_IsConnected:
  "IsConnected (snd (SubscribeToTopic w t h mc)) = IsConnected mc"
  by (auto simp: SubscribeToTopic_def IsConnected_def log_to_simps Let_def split: option.splits)

lemma SubscribeToTopic_panicked:
  "panicked (snd (SubscribeToTopic w t h mc)) = panicked mc"
  by (auto simp: SubscribeToTopic_def log_to_simps Let_def split: option.splits)

lemma SubscribeToTopic_subscriptions:
  "subscriptions (snd (SubscribeToTopic w t h mc)) = subscriptions mc \<or>
   (IsConnected mc \<and> map_of (subscriptions mc) t = None \<and>
    (\<exists>sub. subscriptions (snd (SubscribeToTopic w t h mc)) = AList.update t sub (subscriptions mc)))"
  by (auto simp: SubscribeToTopic_def log_to_simps Let_def split: option.splits)

lemma SubscribeToTopic_cases:
  "(subscriptions (snd (SubscribeToTopic w t h mc)) = subscriptions mc \<and>
    consumers (snd (SubscribeToTopic w t h mc)) = consumers mc) \<or>
   (IsConnected mc \<and> map_of (subscriptions mc) t = None \<and>
    (\<exists>sub. subscriptions (snd (SubscribeToTopic w t h mc)) = AList.update t sub (subscriptions mc) \<and>
       consumers (snd (SubscribeToTopic w t h mc)) =
         consumers mc @ [\<lparr>c_topic = t, c_sub = sub, c_handler = h\<rparr>]))"
  by (auto simp: SubscribeToTopic_def log_to_simps Let_def split: option.splits)

lemma Unsubscribe_IsConnected:
  "IsConnected (snd (Unsubscribe w t mc)) = IsConnected mc"
proof (cases "map_of (subscriptions mc) t")
  case None
  then show ?thesis by (simp add: Unsubscribe_def)
next
  case (Some sub)
  obtain r mc' where r: "transport_unsubscribe w sub mc = (r, mc')"
    by (cases "transport_unsubscribe w sub mc")
  then have "IsConnected mc' = IsConnected mc"
    using IsConnected_transport_unsubscribe [of w sub mc] by simp
  moreover have "IsConnected (log_to l s (mc'\<lparr>subscriptions := x\<rparr>)) = IsConnected mc'" for l s x
    by (simp add: IsConnected_def log_to_simps)
  ultimately show ?thesis
    using Some r by (cases r) (simp_all add: Unsubscribe_def)
qed

lemma Unsubscribe_consumers:
  "consumers (snd (Unsubscribe w t mc)) = consumers mc"
proof (cases "map_of (subscriptions mc) t")
  case None
  then show ?thesis by (simp add: Unsubscribe_def)
next
  case (Some sub)
  obtain r mc' where r: "transport_unsubscribe w sub mc = (r, mc')"
    by (cases "transport_unsubscribe w sub mc")
  then have "consumers mc' = consumers mc"
    using transport_unsubscribe_frame(4) [of w sub mc] by simp
  with Some r show ?thesis
    by (cases r) (simp_all add: Unsubscribe_def log_to_simps)
qed

lemma Unsubscribe_subscriptions:
  "subscriptions (snd (Unsubscribe w t mc)) = subscriptions mc \<or>
   subscriptions (snd (Unsubscribe w t mc)) = AList.delete t (subscriptions mc)"
proof (cases "map_of (subscriptions mc) t")
  case None
  then show ?thesis by (simp add: Unsubscribe_def)
next
  case (Some sub)
  obtain r mc' where r: "transport_unsubscribe w sub mc = (r, mc')"
    by (cases "transport_unsubscribe w sub mc")
  then have "subscriptions mc' = subscriptions mc"
    using transport_unsubscribe_frame(3) [of w sub mc] by simp
  with Some r show ?thesis
    by (cases r) (simp_all add: Unsubscribe_def log_to_simps)
qed

lemma consumer_recv_frame:
  "IsConnected (snd (consumer_recv cn read mc)) = IsConnected mc"
  "subscriptions (snd (consumer_recv cn read mc)) = subscriptions mc"
  "consumers (snd (consumer_recv cn read mc)) = consumers mc"
  by (auto simp: consumer_recv_def IsConnected_def log_to_simps split: option.splits)

lemma consumer_cleanup_frame:
  "connected (consumer_cleanup cn mc) = connected mc"
  "conn (consumer_cleanup cn mc) = conn mc"
  "subscriptions (consumer_cleanup cn mc) = AList.delete (c_topic cn) (subscriptions mc)"
  "consumers (consumer_cleanup cn mc) = consumers mc"
  "panicked (consumer_cleanup cn mc) = panicked mc"
  by (simp_all add: consumer_cleanup_def log_to_simps)

lemma consumer_turn_IsConnected:
  "IsConnected (consumer_turn k msg mc) = IsConnected mc"
proof (cases "k < length (consumers mc)")
  case False
  then show ?thesis by (simp add: consumer_turn_def)
next
  case True
  let ?cn = "consumers mc ! k"
  let ?read = "if channel_closed mc (c_sub ?cn) then None else Some msg"
  obtain r mc' where r: "consumer_recv ?cn ?read mc = (r, mc')"
    by (cases "consumer_recv ?cn ?read mc")
  have "IsConnected mc' = IsConnected mc"
    using consumer_recv_frame(1) [of ?cn ?read mc] r by simp
  moreover have "IsConnected (consumer_cleanup cn (mc'\<lparr>consumers := cs\<rparr>)) = IsConnected mc'"
    for cn cs
    by (simp add: IsConnected_def consumer_cleanup_frame)
  ultimately show ?thesis
    using True r by (cases r) (simp_all add: consumer_turn_def Let_def)
qed

lemma consumer_turn_subscriptions:
  "subscriptions (consumer_turn k msg mc) = subscriptions mc \<or>
   (\<exists>t. subscriptions (consumer_turn k msg mc) = AList.delete t (subscriptions mc))"
proof (cases "k < length (consumers mc)")
  case False
  then show ?thesis by (simp add: consumer_turn_def)
next
  case True
  let ?cn = "consumers mc ! k"
  let ?read = "if channel_closed mc (c_sub ?cn) then None else Some msg"
  obtain r mc' where r: "consumer_recv ?cn ?read mc = (r, mc')"
    by (cases "consumer_recv ?cn ?read mc")
  have "subscriptions mc' = subscriptions mc"
    using consumer_recv_frame(2) [of ?cn ?read mc] r by simp
  then show ?thesis
    using True r by (cases r) (auto simp: consumer_turn_def Let_def consumer_cleanup_frame)
qed

lemma close_subscriptions_frame:
  "connected (close_subscriptions w es mc) = connected mc"
  "(conn (close_subscriptions w es mc) = None) = (conn mc = None)"
  "consumers (close_subscriptions w es mc) = consumers mc"
  by (induction w es mc rule: close_subscriptions.induct)
     (simp_all add: Let_def log_to_simps transport_unsubscribe_frame)

lemma close_subscriptions_subscriptions:
  "subscriptions (close_subscriptions w es mc) =
     filter (\<lambda>p. fst p \<notin> fst ` set es) (subscriptions mc)"
proof (induction w es mc rule: close_subscriptions.induct)
  case (1 w mc)
  then show ?case by simp
next
  case (2 w topic sub rest mc)
  then show ?case
    by (auto simp: Let_def log_to_simps transport_unsubscribe_frame AList.delete_eq
          intro!: filter_cong)
qed

lemma close_subscriptions_all:
  "subscriptions (close_subscriptions w (subscriptions mc) mc) = []"
  by (simp add: close_subscriptions_subscriptions filter_empty_conv)

lemma Close_not_connected: "\<not> IsConnected (Close w mc)"
  by (auto simp: Close_def IsConnected_def Let_def log_to_simps)

lemma Close_when_connected:
  assumes "IsConnected mc"
  shows "subscriptions (Close w mc) = []"
proof -
  from assms obtain c where "connected mc" and "conn mc = Some c"
    by (auto simp: IsConnected_def)
  then show ?thesis
    by (simp add: Close_def Let_def log_to_simps close_subscriptions_all)
qed

lemma Close_when_not_connected:
  "\<not> IsConnected mc \<Longrightarrow> Close w mc = mc"
  by (auto simp: Close_def IsConnected_def)

lemma Close_consumers: "consumers (Close w mc) = consumers mc"
  by (simp add: Close_def Let_def log_to_simps close_subscriptions_frame)

lemma Close_disconnects:
  "IsConnected mc \<Longrightarrow> \<exists>c. conn (Close w mc) = Some c \<and> disconnected c"
proof -
  assume "IsConnected mc"
  then have c: "connected mc" and n: "conn mc \<noteq> None"
    by (simp_all add: IsConnected_def)
  from n have "conn (close_subscriptions w (subscriptions mc) mc) \<noteq> None"
    by (simp add: close_subscriptions_frame)
  then obtain c0 where "conn (close_subscriptions w (subscriptions mc) mc) = Some c0"
    by blast
  moreover from n obtain c1 where "conn mc = Some c1"
    by blast
  ultimately show ?thesis
    using c by (simp add: Close_def Let_def log_to_simps)
qed

subsection \<open>Invariants of runs\<close>

lemma call_not_connected:
  "\<not> IsConnected mc \<Longrightarrow> \<not> IsConnected (call w a mc)"
  by (cases a)
     (simp_all add: PublishToQueue_frame PublishToTopic_frame SubscribeToTopic_IsConnected
        Unsubscribe_IsConnected consumer_turn_IsConnected Close_not_connected)

lemma exec_not_connected:
  "\<not> IsConnected mc \<Longrightarrow> \<not> IsConnected (exec w a mc)"
  by (simp add: exec_def call_not_connected)

lemma run_not_connected:
  "\<not> IsConnected mc \<Longrightarrow> \<not> IsConnected (run script mc)"
  by (induction script mc rule: run.induct) (simp_all add: exec_not_connected)

lemma call_active_connected:
  assumes "subscriptions mc = [] \<or> IsConnected mc"
  shows "subscriptions (call w a mc) = [] \<or> IsConnected (call w a mc)"
proof (cases a)
  case (OpPublishToQueue q m)
  then show ?thesis using assms by (simp add: PublishToQueue_frame)
next
  case (OpPublishToTopic t m)
  then show ?thesis using assms by (simp add: PublishToTopic_frame)
next
  case (OpSubscribeToTopic t h)
  then show ?thesis
    using assms SubscribeToTopic_subscriptions [of w t h mc]
    by (auto simp: SubscribeToTopic_IsConnected)
next
  case (OpUnsubscribe t)
  then show ?thesis
    using assms Unsubscribe_subscriptions [of w t mc]
    by (auto simp: Unsubscribe_IsConnected)
next
  case OpIsConnected
  then show ?thesis using assms by simp
next
  case OpClose
  then show ?thesis
    using assms
    by (cases "IsConnected mc") (simp_all add: Close_when_connected Close_when_not_connected)
next
  case (OpReceive k msg)
  then show ?thesis
    using assms consumer_turn_subscriptions [of k msg mc]
    by (auto simp: consumer_turn_IsConnected)
qed

lemma exec_active_connected:
  "subscriptions mc = [] \<or> IsConnected mc \<Longrightarrow>
   subscriptions (exec w a mc) = [] \<or> IsConnected (exec w a mc)"
  by (simp add: exec_def call_active_connected)

lemma run_active_connected:
  "subscriptions mc = [] \<or> IsConnected mc \<Longrightarrow>
   subscriptions (run script mc) = [] \<or> IsConnected (run script mc)"
proof (induction script mc rule: run.induct)
  case (1 mc)
  then show ?case by simp
next
  case (2 w a script mc)
  then show ?case using exec_active_connected [of mc w a] by simp
qed

lemma NewMessageClient_Inr:
  assumes "NewMessageClient w u lg = Inr mc"
  shows "subscriptions mc = []" and "IsConnected mc" and "url mc = u"
    and "\<exists>c. conn mc = Some c \<and> peer c = ''artemis-service:61613''"
    and "consumers mc = []" and "\<not> panicked mc"
  using assms
  by (auto simp: NewMessageClient_def connect_def Let_def JoinHostPort_def log_to_def
        IsConnected_def split: option.splits)

subsection \<open>The subscription manager's invariant\<close>

lemma update_absent:
  "map_of al k = None \<Longrightarrow> AList.update k v al = al @ [(k, v)]"
  by (induction al) (auto split: if_splits)

lemma remove_nth_distinct:
  assumes "k < length xs" and "distinct (map f xs)"
  shows "distinct (map f (take k xs @ drop (Suc k) xs))"
    and "f (xs ! k) \<notin> f ` set (take k xs @ drop (Suc k) xs)"
proof -
  from assms(1) have "xs = take k xs @ xs ! k # drop (Suc k) xs"
    by (rule id_take_nth_drop)
  then have "distinct (map f (take k xs @ xs ! k # drop (Suc k) xs))"
    using assms(2) by simp
  then show "distinct (map f (take k xs @ drop (Suc k) xs))"
    and "f (xs ! k) \<notin> f ` set (take k xs @ drop (Suc k) xs)"
    by auto
qed

lemma remove_nth_set:
  assumes "k < length xs"
  shows "set xs = insert (xs ! k) (set (take k xs @ drop (Suc k) xs))"
proof -
  from assms have "xs = take k xs @ xs ! k # drop (Suc k) xs"
    by (rule id_take_nth_drop)
  then have "set xs = set (take k xs @ xs ! k # drop (Suc k) xs)"
    by simp
  then show ?thesis by simp
qed

lemma Unsubscribe_cases:
  "snd (Unsubscribe w t mc) = mc \<or>
   (\<exists>sub. map_of (subscriptions mc) t = Some sub \<and> unsubscribe_err w sub = None \<and>
      subscriptions (snd (Unsubscribe w t mc)) = AList.delete t (subscriptions mc) \<and>
      panicked (snd (Unsubscribe w t mc)) = panicked (snd (transport_unsubscribe w sub mc)))"
proof (cases "map_of (subscriptions mc) t")
  case None
  then show ?thesis by (simp add: Unsubscribe_def)
next
  case (Some sub)
  show ?thesis
  proof (cases "unsubscribe_err w sub")
    case None
    with Some show ?thesis
      by (simp add: Unsubscribe_def transport_unsubscribe_def log_to_simps wake_closed_eq)
  next
    case (Some e)
    with \<open>map_of (subscriptions mc) t = Some sub\<close> show ?thesis
      by (simp add: Unsubscribe_def transport_unsubscribe_def)
  qed
qed

lemma consumer_turn_cases:
  "(subscriptions (consumer_turn k msg mc) = subscriptions mc \<and>
    consumers (consumer_turn k msg mc) = consumers mc) \<or>
   (k < length (consumers mc) \<and>
    subscriptions (consumer_turn k msg mc) =
      AList.delete (c_topic (consumers mc ! k)) (subscriptions mc) \<and>
    consumers (consumer_turn k msg mc) = take k (consumers mc) @ drop (Suc k) (consumers mc))"
proof (cases "k < length (consumers mc)")
  case False
  then show ?thesis by (simp add: consumer_turn_def)
next
  case True
  let ?cn = "consumers mc ! k"
  let ?read = "if channel_closed mc (c_sub ?cn) then None else Some msg"
  obtain r mc' where r: "consumer_recv ?cn ?read mc = (r, mc')"
    by (cases "consumer_recv ?cn ?read mc")
  have "subscriptions mc' = subscriptions mc" and "consumers mc' = consumers mc"
    using consumer_recv_frame(2,3) [of ?cn ?read mc] r by simp_all
  then show ?thesis
    using True r by (cases r) (simp_all add: consumer_turn_def Let_def consumer_cleanup_frame)
qed

lemma manager_inv_subscribe:
  assumes inv: "manager_inv mc" and up: "\<not> panicked mc"
  shows "manager_inv (snd (SubscribeToTopic w t h mc))"
proof -
  let ?mc' = "snd (SubscribeToTopic w t h mc)"
  have con: "IsConnected ?mc' = IsConnected mc"
    by (rule SubscribeToTopic_IsConnected)
  have pan: "panicked ?mc' = panicked mc"
    by (rule SubscribeToTopic_panicked)
  from SubscribeToTopic_cases [of w t h mc] show ?thesis
  proof (elim disjE conjE exE)
    assume "subscriptions ?mc' = subscriptions mc" and "consumers ?mc' = consumers mc"
    with inv con pan show ?thesis
      by (simp add: manager_inv_def)
  next
    fix sub
    assume c: "IsConnected mc" and fresh: "map_of (subscriptions mc) t = None"
      and s: "subscriptions ?mc' = AList.update t sub (subscriptions mc)"
      and k: "consumers ?mc' = consumers mc @ [\<lparr>c_topic = t, c_sub = sub, c_handler = h\<rparr>]"
    from fresh have s': "subscriptions ?mc' = subscriptions mc @ [(t, sub)]"
      using s by (simp add: update_absent)
    from fresh have tk: "t \<notin> fst ` set (subscriptions mc)"
      by (simp add: map_of_eq_None_iff)
    from inv up c have sub4: "consumer_key ` set (consumers mc) \<subseteq> set (subscriptions mc)"
      by (simp add: manager_inv_def)
    have tc: "t \<notin> c_topic ` set (consumers mc)"
    proof
      assume "t \<in> c_topic ` set (consumers mc)"
      then obtain cn where "cn \<in> set (consumers mc)" and "c_topic cn = t"
        by auto
      with sub4 have "(t, c_sub cn) \<in> set (subscriptions mc)"
        by (auto simp: consumer_key_def)
      with tk show False by force
    qed
    from inv have d1: "distinct (map fst (subscriptions mc))"
      and d2: "distinct (map c_topic (consumers mc))"
      and s3: "set (subscriptions mc) \<subseteq> consumer_key ` set (consumers mc)"
      by (simp_all add: manager_inv_def)
    have "distinct (map fst (subscriptions ?mc'))"
      using d1 tk by (simp add: s')
    moreover have "distinct (map c_topic (consumers ?mc'))"
      using d2 tc by (simp add: k)
    moreover have "set (subscriptions ?mc') \<subseteq> consumer_key ` set (consumers ?mc')"
      using s3 by (auto simp: s' k consumer_key_def)
    moreover have "consumer_key ` set (consumers ?mc') \<subseteq> set (subscriptions ?mc')"
      using sub4 by (auto simp: s' k consumer_key_def)
    ultimately show ?thesis
      using c con by (simp add: manager_inv_def)
  qed
qed

lemma manager_inv_unsubscribe:
  assumes inv: "manager_inv mc"
  shows "manager_inv (snd (Unsubscribe w t mc))"
proof -
  let ?mc' = "snd (Unsubscribe w t mc)"
  have con: "IsConnected ?mc' = IsConnected mc"
    by (rule Unsubscribe_IsConnected)
  have k: "consumers ?mc' = consumers mc"
    by (rule Unsubscribe_consumers)
  from Unsubscribe_cases [of w t mc] show ?thesis
  proof (elim disjE conjE exE)
    assume "?mc' = mc"
    with inv show ?thesis by simp
  next
    fix sub
    assume found: "map_of (subscriptions mc) t = Some sub"
      and acc: "unsubscribe_err w sub = None"
      and s: "subscriptions ?mc' = AList.delete t (subscriptions mc)"
      and p: "panicked ?mc' = panicked (snd (transport_unsubscribe w sub mc))"
    from found have mem: "(t, sub) \<in> set (subscriptions mc)"
      by (rule map_of_SomeD)
    from inv have "set (subscriptions mc) \<subseteq> consumer_key ` set (consumers mc)"
      by (simp add: manager_inv_def)
    with mem have "(t, sub) \<in> consumer_key ` set (consumers mc)"
      by blast
    then obtain cn where cn: "cn \<in> set (consumers mc)" and "consumer_key cn = (t, sub)"
      by (metis imageE)
    then have cs: "c_sub cn = sub"
      by (simp add: consumer_key_def)
    from mem inv have "IsConnected mc"
      by (auto simp: manager_inv_def)
    then have "conn mc \<noteq> None"
      by (simp add: IsConnected_def)
    then have "panicked (snd (transport_unsubscribe w sub mc))"
      by (rule transport_unsubscribe_wakes [OF acc _ cn cs])
    with p have pan: "panicked ?mc'"
      by simp
    from inv have d1: "distinct (map fst (subscriptions mc))"
      and d2: "distinct (map c_topic (consumers mc))"
      and s3: "set (subscriptions mc) \<subseteq> consumer_key ` set (consumers mc)"
      and s5: "subscriptions mc = [] \<or> IsConnected mc"
      by (simp_all add: manager_inv_def)
    have "distinct (map fst (subscriptions ?mc'))"
      using d1 by (simp add: s AList.distinct_delete)
    moreover have "set (subscriptions ?mc') \<subseteq> consumer_key ` set (consumers ?mc')"
      using s3 by (auto simp: s k AList.delete_eq)
    moreover have "subscriptions ?mc' = [] \<or> IsConnected ?mc'"
      using \<open>IsConnected mc\<close> con by simp
    ultimately show ?thesis
      using d2 pan by (simp add: manager_inv_def k)
  qed
qed

lemma manager_inv_consumer_turn:
  assumes inv: "manager_inv mc" and up: "\<not> panicked mc"
  shows "manager_inv (consumer_turn k msg mc)"
proof -
  let ?mc' = "consumer_turn k msg mc"
  have con: "IsConnected ?mc' = IsConnected mc"
    by (rule consumer_turn_IsConnected)
  from inv have d1: "distinct (map fst (subscriptions mc))"
    and d2: "distinct (map c_topic (consumers mc))"
    and s3: "set (subscriptions mc) \<subseteq> consumer_key ` set (consumers mc)"
    and s5: "subscriptions mc = [] \<or> IsConnected mc"
    by (simp_all add: manager_inv_def)
  from inv up have s4: "IsConnected mc \<Longrightarrow> consumer_key ` set (consumers mc) \<subseteq> set (subscriptions mc)"
    by (simp add: manager_inv_def)
  from consumer_turn_cases [of k msg mc] show ?thesis
  proof (elim disjE conjE)
    assume "subscriptions ?mc' = subscriptions mc" and "consumers ?mc' = consumers mc"
    with d1 d2 s3 s5 s4 con show ?thesis
      by (simp add: manager_inv_def)
  next
    let ?cn = "consumers mc ! k"
    let ?rest = "take k (consumers mc) @ drop (Suc k) (consumers mc)"
    assume kl: "k < length (consumers mc)"
      and s: "subscriptions ?mc' = AList.delete (c_topic ?cn) (subscriptions mc)"
      and c: "consumers ?mc' = ?rest"
    from kl d2 have dr: "distinct (map c_topic ?rest)"
      and nr: "c_topic ?cn \<notin> c_topic ` set ?rest"
      by (rule remove_nth_distinct)+
    from kl have all: "set (consumers mc) = insert ?cn (set ?rest)"
      by (rule remove_nth_set)
    have "distinct (map fst (subscriptions ?mc'))"
      using d1 by (simp add: s AList.distinct_delete)
    moreover have "distinct (map c_topic (consumers ?mc'))"
      using dr by (simp add: c)
    moreover have "set (subscriptions ?mc') \<subseteq> consumer_key ` set (consumers ?mc')"
    proof
      fix e
      assume "e \<in> set (subscriptions ?mc')"
      then have e: "e \<in> set (subscriptions mc)" and ne: "fst e \<noteq> c_topic ?cn"
        by (auto simp: s AList.delete_eq)
      with s3 obtain cn where cn: "cn \<in> set (consumers mc)" and ke: "consumer_key cn = e"
        by auto
      with ne have "cn \<noteq> ?cn"
        by (auto simp: consumer_key_def)
      with cn all have "cn \<in> set ?rest"
        by auto
      with ke show "e \<in> consumer_key ` set (consumers ?mc')"
        by (auto simp: c)
    qed
    moreover have "subscriptions ?mc' = [] \<or> IsConnected ?mc'"
    proof (cases "IsConnected mc")
      case True
      with con show ?thesis by simp
    next
      case False
      with s5 have "subscriptions mc = []" by simp
      then show ?thesis by (simp add: s)
    qed
    moreover have "consumer_key ` set (consumers ?mc') \<subseteq> set (subscriptions ?mc')"
      if "IsConnected ?mc'"
    proof
      fix e
      assume "e \<in> consumer_key ` set (consumers ?mc')"
      then obtain cn where cn: "cn \<in> set ?rest" and ke: "e = consumer_key cn"
        by (auto simp: c)
      from cn all have "cn \<in> set (consumers mc)"
        by auto
      with s4 that con ke have "e \<in> set (subscriptions mc)"
        by auto
      moreover from cn nr have "c_topic cn \<noteq> c_topic ?cn"
        by (metis imageI)
      ultimately show "e \<in> set (subscriptions ?mc')"
        using ke by (auto simp: s AList.delete_eq consumer_key_def)
    qed
    ultimately show ?thesis
      by (simp add: manager_inv_def)
  qed
qed

lemma manager_inv_close:
  assumes inv: "manager_inv mc"
  shows "manager_inv (Close w mc)"
proof (cases "IsConnected mc")
  case False
  with inv show ?thesis by (simp add: Close_when_not_connected)
next
  case True
  from inv have "distinct (map c_topic (consumers mc))"
    by (simp add: manager_inv_def)
  then show ?thesis
    using True by (simp add: manager_inv_def Close_when_connected Close_consumers Close_not_connected)
qed

lemma manager_inv_frame:
  assumes "manager_inv mc"
    and "IsConnected mc' = IsConnected mc" and "subscriptions mc' = subscriptions mc"
    and "consumers mc' = consumers mc" and "panicked mc' = panicked mc"
  shows "manager_inv mc'"
  using assms by (simp add: manager_inv_def)

lemma manager_inv_call:
  assumes "manager_inv mc" and "\<not> panicked mc"
  shows "manager_inv (call w a mc)"
proof (cases a)
  case (OpPublishToQueue q m)
  then show ?thesis
    using manager_inv_frame [OF assms(1) PublishToQueue_frame] by simp
next
  case (OpPublishToTopic t m)
  then show ?thesis
    using manager_inv_frame [OF assms(1) PublishToTopic_frame] by simp
next
  case (OpSubscribeToTopic t h)
  then show ?thesis using assms by (simp add: manager_inv_subscribe)
next
  case (OpUnsubscribe t)
  then show ?thesis using assms by (simp add: manager_inv_unsubscribe)
next
  case OpIsConnected
  then show ?thesis using assms by simp
next
  case OpClose
  then show ?thesis using assms by (simp add: manager_inv_close)
next
  case (OpReceive k msg)
  then show ?thesis using assms by (simp add: manager_inv_consumer_turn)
qed

lemma manager_inv_exec:
  "manager_inv mc \<Longrightarrow> manager_inv (exec w a mc)"
  by (simp add: exec_def manager_inv_call)

lemma manager_inv_run:
  "manager_inv mc \<Longrightarrow> manager_inv (run script mc)"
  by (induction script mc rule: run.induct) (simp_all add: manager_inv_exec)

lemma manager_inv_new:
  "NewMessageClient w u lg = Inr mc \<Longrightarrow> manager_inv mc"
  by (simp add: manager_inv_def NewMessageClient_Inr)

lemma consume_no_receive_error:
  "\<forall>m \<in> set msgs. msg_err m = None \<Longrightarrow>
   consume cn msgs mc =
     (Waiting, map msg_body msgs,
      mc\<lparr>logger := logger mc @ handling_errors cn (map msg_body msgs)\<rparr>)"
proof (induction msgs arbitrary: mc)
  case Nil
  then show ?case by (simp add: handling_errors_def)
next
  case (Cons m msgs)
  then show ?case
    by (cases "c_handler cn (msg_body m)")
       (simp_all add: handling_errors_def consumer_recv_def log_to_def)
qed

lemma consume_receive_error:
  "\<forall>m \<in> set pre. msg_err m = None \<Longrightarrow> msg_err m = Some e \<Longrightarrow>
   consume cn (pre @ m # post) mc =
     (Exited, map msg_body pre,
      mc\<lparr>subscriptions := AList.delete (c_topic cn) (subscriptions mc),
         logger := logger mc @ handling_errors cn (map msg_body pre) @
           [(ErrorLevel, ''Error receiving message from topic '' @ c_topic cn @ '': '' @ e),
            (InfoLevel, ''Unsubscribed from topic: '' @ c_topic cn)]\<rparr>)"
proof (induction pre arbitrary: mc)
  case Nil
  then show ?case
    by (simp add: handling_errors_def consumer_recv_def consumer_cleanup_def log_to_def)
next
  case (Cons p pre)
  then show ?case
    by (cases "c_handler cn (msg_body p)")
       (simp_all add: handling_errors_def consumer_recv_def log_to_def)
qed

lemma demo_client_new:
  "NewMessageClient calm_world ''amqp://broker.internal:5672'' [] = Inr demo_client"
  by (simp add: NewMessageClient_def connect_def calm_world_def demo_client_def
        JoinHostPort_def log_to_def)

subsection \<open>Publishing\<close>

text \<open>
  Claim C2. \<^verbatim>\<open>PublishToQueue\<close> and \<^verbatim>\<open>PublishToTopic\<close> are the publish operation.
  When the session is not connected they fail with the not-connected error (the
  specification's BrokerUnavailable) and return the client as it was, whatever the
  world is: the marshaller and the transport are not consulted and nothing is added
  to what the connection was handed. When the session is connected and the payload
  cannot be serialized they fail with the marshalling error (EncodingError), again
  with the client unchanged. When they succeed, the session was connected, the
  payload was serialized to some data, the transport accepted the write, and the
  frame (destination, content type, data) is the last thing handed to the connection.
\<close>

theorem publish_spec:
  "(\<not> IsConnected mc \<longrightarrow>
      PublishToQueue w d m mc = (Some ErrNotConnected, mc) \<and>
      PublishToTopic w d m mc = (Some ErrNotConnected, mc)) \<and>
   (IsConnected mc \<and> marshal w m = Inl e \<longrightarrow>
      PublishToQueue w d m mc = (Some (ErrMarshal e), mc) \<and>
      PublishToTopic w d m mc = (Some (ErrMarshal e), mc)) \<and>
   (fst (PublishToQueue w d m mc) = None \<longrightarrow>
      (\<exists>data c. IsConnected mc \<and> marshal w m = Inr data \<and> send_err w d data = None \<and>
         conn mc = Some c \<and>
         conn (snd (PublishToQueue w d m mc)) =
           Some (c\<lparr>sent := sent c @ [(d, ''application/json'', data)]\<rparr>))) \<and>
   (fst (PublishToTopic w d m mc) = None \<longrightarrow>
      (\<exists>data c. IsConnected mc \<and> marshal w m = Inr data \<and> send_err w d data = None \<and>
         conn mc = Some c \<and>
         conn (snd (PublishToTopic w d m mc)) =
           Some (c\<lparr>sent := sent c @ [(d, ''application/json'', data)]\<rparr>)))"
  by (auto simp: PublishToQueue_def PublishToTopic_def log_to_simps
           split: sum.splits option.splits if_splits)

theorem publish_spec_witness:
  "\<not> IsConnected (Close calm_world demo_client) \<and>
   PublishToQueue stormy_world ''queue://commands.stop_bot'' [] (Close calm_world demo_client) =
     (Some ErrNotConnected, Close calm_world demo_client) \<and>
   IsConnected demo_client \<and> marshal stormy_world [] = Inl ''unsupported type'' \<and>
   PublishToTopic stormy_world ''topic://alerts'' [] demo_client =
     (Some (ErrMarshal ''unsupported type''), demo_client) \<and>
   fst (PublishToQueue calm_world ''queue://commands.stop_bot'' [] demo_client) = None \<and>
   map_option sent (conn (snd (PublishToQueue calm_world ''queue://commands.stop_bot'' [] demo_client))) =
     Some [(''queue://commands.stop_bot'', ''application/json'', ''{}'')]"
proof -
  have h1: "\<not> IsConnected (Close calm_world demo_client)"
    by (simp add: Close_def IsConnected_def demo_client_def Let_def log_to_def)
  have h2: "IsConnected demo_client \<and> marshal stormy_world [] = Inl ''unsupported type''"
    by (simp add: IsConnected_def demo_client_def stormy_world_def)
  have h3: "fst (PublishToQueue calm_world ''queue://commands.stop_bot'' [] demo_client) = None"
    by (simp add: PublishToQueue_def IsConnected_def demo_client_def calm_world_def)
  have c: "conn demo_client = Some \<lparr>peer = ''artemis-service:61613'', login = (''admin'', ''admin''),
                   sent = [], opened = 0, unsubscribed = [], disconnected = False\<rparr>"
    by (simp add: demo_client_def)
  have h4: "marshal calm_world [] = Inr ''{}''"
    by (simp add: calm_world_def)
  show ?thesis
    using h1 h2 h3 h4 c
      publish_spec [where mc = "Close calm_world demo_client" and w = stormy_world
        and d = "''queue://commands.stop_bot''" and m = "[]"]
      publish_spec [where mc = demo_client and w = stormy_world
        and d = "''topic://alerts''" and m = "[]" and e = "''unsupported type''"]
      publish_spec [where mc = demo_client and w = calm_world
        and d = "''queue://commands.stop_bot''" and m = "[]"]
    by auto
qed

lemma demo_subscribed_eq:
  "demo_subscribed =
     \<lparr>conn = Some \<lparr>peer = ''artemis-service:61613'', login = (''admin'', ''admin''),
                   sent = [], opened = 1, unsubscribed = [], disconnected = False\<rparr>,
      subscriptions = [(''topic://trades.filled'',
                        \<lparr>sub_id = 0, sub_dest = ''topic://trades.filled''\<rparr>)],
      logger = [(InfoLevel, ''Connected to message broker''),
                (InfoLevel, ''Subscribed to topic: topic://trades.filled'')],
      url = ''amqp://broker.internal:5672'',
      connected = True,
      consumers = [\<lparr>c_topic = ''topic://trades.filled'',
                     c_sub = \<lparr>sub_id = 0, sub_dest = ''topic://trades.filled''\<rparr>,
                     c_handler = picky_handler\<rparr>],
      panicked = False\<rparr>"
  by (simp add: demo_subscribed_def SubscribeToTopic_def IsConnected_def demo_client_def Let_def
        calm_world_def log_to_def)

subsection \<open>Unsubscribing\<close>




lemma demo_run:
  "run [(calm_world, OpPublishToQueue ''queue://commands.stop_bot'' []),
        (stormy_world, OpUnsubscribe ''topic://trades.filled''),
        (calm_world, OpReceive 0 \<lparr>msg_err = None, msg_body = ''bad''\<rparr>)] demo_subscribed =
   demo_subscribed
     \<lparr>conn := Some \<lparr>peer = ''artemis-service:61613'', login = (''admin'', ''admin''),
          sent = [(''queue://commands.stop_bot'', ''application/json'', ''{}'')],
          opened = 1, unsubscribed = [], disconnected = False\<rparr>,
       logger := logger demo_subscribed @
         [(DebugLevel, ''Published message to queue: queue://commands.stop_bot''),
          (ErrorLevel, ''Error handling message from topic topic://trades.filled: cannot decode'')]\<rparr>"
  by (simp add: demo_subscribed_eq exec_def PublishToQueue_def IsConnected_def calm_world_def
      stormy_world_def Unsubscribe_def transport_unsubscribe_def consumer_turn_def
      channel_closed_def consumer_recv_def picky_handler_def log_to_def)

subsection \<open>Subscribing twice\<close>

text \<open>
  Claim C3. If \<^verbatim>\<open>SubscribeToTopic\<close> on topic \<open>t\<close> succeeded, then \<open>t\<close> is in the
  active set right after the call; and after any further run of the client (calls of
  the exported methods and turns of the consumer goroutines) in which \<open>t\<close> is still
  in the active set, a second \<^verbatim>\<open>SubscribeToTopic\<close> on \<open>t\<close>, with any handler and
  whatever the transport would answer, fails with the already-subscribed error and
  returns the client exactly as it was: the active set, the running consumers and
  the connection are unchanged.
\<close>

theorem subscribe_twice:
  assumes "fst (SubscribeToTopic w1 t h1 mc) = None"
    and "map_of (subscriptions (run script (snd (SubscribeToTopic w1 t h1 mc)))) t \<noteq> None"
  shows "map_of (subscriptions (snd (SubscribeToTopic w1 t h1 mc))) t \<noteq> None \<and>
         SubscribeToTopic w2 t h2 (run script (snd (SubscribeToTopic w1 t h1 mc))) =
           (Some (ErrAlreadySubscribed t), run script (snd (SubscribeToTopic w1 t h1 mc)))"
proof -
  let ?mc1 = "snd (SubscribeToTopic w1 t h1 mc)"
  let ?mc2 = "run script ?mc1"
  from assms(1) have con: "IsConnected mc"
    by (auto simp: SubscribeToTopic_def split: if_splits)
  from assms(1) have active: "map_of (subscriptions ?mc1) t \<noteq> None"
    by (auto simp: SubscribeToTopic_def Let_def log_to_simps AList.update_conv'
          split: if_splits option.splits)
  from con have "IsConnected ?mc1"
    by (simp add: SubscribeToTopic_IsConnected)
  then have "subscriptions ?mc2 = [] \<or> IsConnected ?mc2"
    by (simp add: run_active_connected)
  with assms(2) have "IsConnected ?mc2"
    by auto
  with assms(2) have "SubscribeToTopic w2 t h2 ?mc2 = (Some (ErrAlreadySubscribed t), ?mc2)"
    by (simp add: SubscribeToTopic_def)
  with active show ?thesis
    by simp
qed

theorem subscribe_twice_witness:
  "fst (SubscribeToTopic calm_world ''topic://trades.filled'' picky_handler demo_client) = None \<and>
   SubscribeToTopic stormy_world ''topic://trades.filled'' (\<lambda>b. None)
     (run [(calm_world, OpPublishToQueue ''queue://commands.stop_bot'' []),
           (stormy_world, OpUnsubscribe ''topic://trades.filled''),
           (calm_world, OpReceive 0 \<lparr>msg_err = None, msg_body = ''bad''\<rparr>)] demo_subscribed) =
   (Some (ErrAlreadySubscribed ''topic://trades.filled''),
    run [(calm_world, OpPublishToQueue ''queue://commands.stop_bot'' []),
         (stormy_world, OpUnsubscribe ''topic://trades.filled''),
         (calm_world, OpReceive 0 \<lparr>msg_err = None, msg_body = ''bad''\<rparr>)] demo_subscribed)"
proof -
  have h1: "fst (SubscribeToTopic calm_world ''topic://trades.filled'' picky_handler demo_client) = None"
    by (simp add: SubscribeToTopic_def IsConnected_def demo_client_def calm_world_def Let_def)
  have h2: "map_of (subscriptions
              (run [(calm_world, OpPublishToQueue ''queue://commands.stop_bot'' []),
                    (stormy_world, OpUnsubscribe ''topic://trades.filled''),
                    (calm_world, OpReceive 0 \<lparr>msg_err = None, msg_body = ''bad''\<rparr>)]
                 (snd (SubscribeToTopic calm_world ''topic://trades.filled'' picky_handler demo_client))))
              ''topic://trades.filled'' \<noteq> None"
    unfolding demo_subscribed_def [symmetric] demo_run
    by (simp add: demo_subscribed_eq)
  show ?thesis
    using h1 subscribe_twice [OF h1 h2, of stormy_world "\<lambda>b. None"]
    by (simp add: demo_subscribed_def)
qed

lemma demo_subscribed_run:
  "run [(calm_world, OpSubscribeToTopic ''topic://trades.filled'' picky_handler)] demo_client =
   demo_subscribed"
  by (simp add: demo_subscribed_def exec_def demo_client_def)

lemma run_panicked:
  "panicked mc \<Longrightarrow> run script mc = mc"
  by (induction script mc rule: run.induct) (simp_all add: exec_def)

lemma demo_two_topics_run:
  "run [(calm_world, OpSubscribeToTopic ''topic://trades.filled'' picky_handler),
        (calm_world, OpSubscribeToTopic ''topic://orders.updated'' picky_handler),
        (calm_world, OpSubscribeToTopic ''topic://trades.filled'' (\<lambda>b. None)),
        (stormy_world, OpUnsubscribe ''topic://orders.updated''),
        (calm_world, OpReceive 0 \<lparr>msg_err = None, msg_body = ''bad''\<rparr>)] demo_client =
   demo_subscribed
     \<lparr>conn := Some \<lparr>peer = ''artemis-service:61613'', login = (''admin'', ''admin''),
          sent = [], opened = 2, unsubscribed = [], disconnected = False\<rparr>,
       subscriptions :=
         [(''topic://trades.filled'', \<lparr>sub_id = 0, sub_dest = ''topic://trades.filled''\<rparr>),
          (''topic://orders.updated'', \<lparr>sub_id = 1, sub_dest = ''topic://orders.updated''\<rparr>)],
       logger := logger demo_subscribed @
         [(InfoLevel, ''Subscribed to topic: topic://orders.updated''),
          (ErrorLevel, ''Error handling message from topic topic://trades.filled: cannot decode'')],
       consumers :=
         [\<lparr>c_topic = ''topic://trades.filled'',
           c_sub = \<lparr>sub_id = 0, sub_dest = ''topic://trades.filled''\<rparr>,
           c_handler = picky_handler\<rparr>,
          \<lparr>c_topic = ''topic://orders.updated'',
           c_sub = \<lparr>sub_id = 1, sub_dest = ''topic://orders.updated''\<rparr>,
           c_handler = picky_handler\<rparr>]\<rparr>"
proof -
  have first: "exec calm_world (OpSubscribeToTopic ''topic://trades.filled'' picky_handler)
                 demo_client = demo_subscribed"
    by (simp add: demo_subscribed_def exec_def demo_client_def)
  show ?thesis
    unfolding run.simps first
    by (simp add: demo_subscribed_eq exec_def SubscribeToTopic_def IsConnected_def calm_world_def
      stormy_world_def Unsubscribe_def transport_unsubscribe_def consumer_turn_def
      channel_closed_def consumer_recv_def picky_handler_def log_to_def Let_def)
qed

subsection \<open>The active set along runs\<close>

text \<open>
  Claim C5. Start from the client \<^verbatim>\<open>NewMessageClient\<close> returns and run any sequence
  of calls (subscribe, unsubscribe, close, and also publish, the connection query and
  turns of the consumer goroutines, each against any world). In the state reached,
  the topic names of the active set are pairwise distinct; the running consumer
  goroutines have pairwise distinct topics, so no topic has two consumers delivering
  for it; and every entry of the active set is served by a running consumer that
  holds the entry's topic and subscription. This rests on the test in
  \<^verbatim>\<open>SubscribeToTopic\<close> that refuses a topic already in the active set.
\<close>

theorem one_subscription_per_topic:
  assumes "NewMessageClient w0 u lg = Inr mc0"
  shows "distinct (map fst (subscriptions (run script mc0))) \<and>
         distinct (map c_topic (consumers (run script mc0))) \<and>
         set (subscriptions (run script mc0)) \<subseteq>
           consumer_key ` set (consumers (run script mc0))"
proof -
  from assms have "manager_inv mc0"
    by (rule manager_inv_new)
  then have "manager_inv (run script mc0)"
    by (rule manager_inv_run)
  then show ?thesis
    by (simp add: manager_inv_def)
qed

theorem one_subscription_per_topic_witness:
  "NewMessageClient calm_world ''amqp://broker.internal:5672'' [] = Inr demo_client \<and>
   map fst (subscriptions
     (run [(calm_world, OpSubscribeToTopic ''topic://trades.filled'' picky_handler),
           (calm_world, OpSubscribeToTopic ''topic://orders.updated'' picky_handler),
           (calm_world, OpSubscribeToTopic ''topic://trades.filled'' (\<lambda>b. None)),
           (stormy_world, OpUnsubscribe ''topic://orders.updated''),
           (calm_world, OpReceive 0 \<lparr>msg_err = None, msg_body = ''bad''\<rparr>)] demo_client)) =
     [''topic://trades.filled'', ''topic://orders.updated''] \<and>
   map c_topic (consumers
     (run [(calm_world, OpSubscribeToTopic ''topic://trades.filled'' picky_handler),
           (calm_world, OpSubscribeToTopic ''topic://orders.updated'' picky_handler),
           (calm_world, OpSubscribeToTopic ''topic://trades.filled'' (\<lambda>b. None)),
           (stormy_world, OpUnsubscribe ''topic://orders.updated''),
           (calm_world, OpReceive 0 \<lparr>msg_err = None, msg_body = ''bad''\<rparr>)] demo_client)) =
     [''topic://trades.filled'', ''topic://orders.updated''] \<and>
   distinct (map fst (subscriptions
     (run [(calm_world, OpSubscribeToTopic ''topic://trades.filled'' picky_handler),
           (calm_world, OpSubscribeToTopic ''topic://orders.updated'' picky_handler),
           (calm_world, OpSubscribeToTopic ''topic://trades.filled'' (\<lambda>b. None)),
           (stormy_world, OpUnsubscribe ''topic://orders.updated''),
           (calm_world, OpReceive 0 \<lparr>msg_err = None, msg_body = ''bad''\<rparr>)] demo_client))) \<and>
   distinct (map c_topic (consumers
     (run [(calm_world, OpSubscribeToTopic ''topic://trades.filled'' picky_handler),
           (calm_world, OpSubscribeToTopic ''topic://orders.updated'' picky_handler),
           (calm_world, OpSubscribeToTopic ''topic://trades.filled'' (\<lambda>b. None)),
           (stormy_world, OpUnsubscribe ''topic://orders.updated''),
           (calm_world, OpReceive 0 \<lparr>msg_err = None, msg_body = ''bad''\<rparr>)] demo_client))) \<and>
   set (subscriptions
     (run [(calm_world, OpSubscribeToTopic ''topic://trades.filled'' picky_handler),
           (calm_world, OpSubscribeToTopic ''topic://orders.updated'' picky_handler),
           (calm_world, OpSubscribeToTopic ''topic://trades.filled'' (\<lambda>b. None)),
           (stormy_world, OpUnsubscribe ''topic://orders.updated''),
           (calm_world, OpReceive 0 \<lparr>msg_err = None, msg_body = ''bad''\<rparr>)] demo_client)) \<subseteq>
     consumer_key ` set (consumers
     (run [(calm_world, OpSubscribeToTopic ''topic://trades.filled'' picky_handler),
           (calm_world, OpSubscribeToTopic ''topic://orders.updated'' picky_handler),
           (calm_world, OpSubscribeToTopic ''topic://trades.filled'' (\<lambda>b. None)),
           (stormy_world, OpUnsubscribe ''topic://orders.updated''),
           (calm_world, OpReceive 0 \<lparr>msg_err = None, msg_body = ''bad''\<rparr>)] demo_client))"
proof -
  let ?s = "[(calm_world, OpSubscribeToTopic ''topic://trades.filled'' picky_handler),
           (calm_world, OpSubscribeToTopic ''topic://orders.updated'' picky_handler),
           (calm_world, OpSubscribeToTopic ''topic://trades.filled'' (\<lambda>b. None)),
           (stormy_world, OpUnsubscribe ''topic://orders.updated''),
           (calm_world, OpReceive 0 \<lparr>msg_err = None, msg_body = ''bad''\<rparr>)]"
  note t = one_subscription_per_topic [OF demo_client_new, of ?s]
  have k: "map fst (subscriptions (run ?s demo_client)) =
             [''topic://trades.filled'', ''topic://orders.updated'']"
    unfolding demo_two_topics_run by simp
  have c: "map c_topic (consumers (run ?s demo_client)) =
             [''topic://trades.filled'', ''topic://orders.updated'']"
    unfolding demo_two_topics_run by simp
  show ?thesis
    by (intro conjI demo_client_new k c t [THEN conjunct1]
          t [THEN conjunct2, THEN conjunct1] t [THEN conjunct2, THEN conjunct2])
qed

subsection \<open>Closing\<close>

lemma close_subscriptions_panicked_mono:
  "panicked mc \<Longrightarrow> panicked (close_subscriptions w es mc)"
  by (induction w es mc rule: close_subscriptions.induct)
     (simp_all add: Let_def log_to_simps transport_unsubscribe_panicked_mono)

lemma close_subscriptions_panics:
  assumes "(t, s) \<in> set es" and "unsubscribe_err w s = None" and "conn mc \<noteq> None"
    and "cn \<in> set (consumers mc)" and "c_sub cn = s"
  shows "panicked (close_subscriptions w es mc)"
  using assms
proof (induction w es mc rule: close_subscriptions.induct)
  case (1 w mc)
  then show ?case by simp
next
  case (2 w topic sub rest mc)
  let ?mc1 = "snd (transport_unsubscribe w sub mc)"
  let ?mc3 = "log_to InfoLevel (''Unsubscribed from topic: '' @ topic)
                (?mc1\<lparr>subscriptions := AList.delete topic (subscriptions ?mc1)\<rparr>)"
  have step: "close_subscriptions w ((topic, sub) # rest) mc = close_subscriptions w rest ?mc3"
    by (simp add: Let_def)
  show ?case
  proof (cases "(t, s) = (topic, sub)")
    case True
    with "2.prems" have "panicked ?mc1"
      using transport_unsubscribe_wakes [of w sub mc cn] by simp
    then have "panicked ?mc3"
      by (simp add: log_to_simps)
    then show ?thesis
      unfolding step by (rule close_subscriptions_panicked_mono)
  next
    case False
    with "2.prems"(1) have mem: "(t, s) \<in> set rest"
      by auto
    have c3: "conn ?mc3 \<noteq> None"
      using "2.prems"(3) by (simp add: log_to_simps transport_unsubscribe_frame)
    have k3: "cn \<in> set (consumers ?mc3)"
      using "2.prems"(4) by (simp add: log_to_simps transport_unsubscribe_frame)
    show ?thesis
      unfolding step
      using "2.IH" [OF refl refl refl mem "2.prems"(2) c3 k3 "2.prems"(5)] by simp
  qed
qed

lemma Close_panicked:
  "IsConnected mc \<Longrightarrow>
   panicked (Close w mc) = panicked (close_subscriptions w (subscriptions mc) mc)"
proof -
  assume "IsConnected mc"
  then obtain c where "connected mc" and "conn mc = Some c"
    by (auto simp: IsConnected_def)
  then show ?thesis
    by (simp add: Close_def Let_def log_to_simps)
qed

text \<open>
  Claim C6 against the code. \<^verbatim>\<open>Close\<close> is meant to tear the subscriptions down,
  disconnect and be safe to call again, and it empties the active set and clears the
  connected flag. But in any state the client reaches from \<^verbatim>\<open>NewMessageClient\<close>
  with the process up, if the active set holds a subscription whose unsubscribe the
  transport accepts, \<^verbatim>\<open>Close\<close> brings the process down: the accepted
  \<^verbatim>\<open>sub.Unsubscribe()\<close> closes the subscription's channel, its consumer goroutine
  reads \<^verbatim>\<open>nil\<close> and panics on \<^verbatim>\<open>msg.Err\<close>. The subscription is not torn down
  cleanly, and after it nothing runs any more, a second \<^verbatim>\<open>Close\<close> included.
\<close>

theorem Close_panics_on_active_subscription:
  assumes "NewMessageClient w0 u lg = Inr mc0"
    and "\<not> panicked (run script mc0)"
    and "(t, s) \<in> set (subscriptions (run script mc0))"
    and "unsubscribe_err w s = None"
  shows "panicked (Close w (run script mc0)) \<and>
         subscriptions (Close w (run script mc0)) = [] \<and>
         \<not> IsConnected (Close w (run script mc0)) \<and>
         run script' (Close w (run script mc0)) = Close w (run script mc0)"
proof -
  let ?mc = "run script mc0"
  from assms(1) have inv: "manager_inv ?mc"
    by (simp add: manager_inv_new manager_inv_run)
  from inv assms(3) have con: "IsConnected ?mc"
    by (auto simp: manager_inv_def)
  then have conn: "conn ?mc \<noteq> None"
    by (simp add: IsConnected_def)
  from inv have "set (subscriptions ?mc) \<subseteq> consumer_key ` set (consumers ?mc)"
    by (simp add: manager_inv_def)
  with assms(3) have "(t, s) \<in> consumer_key ` set (consumers ?mc)"
    by blast
  then obtain cn where cn: "cn \<in> set (consumers ?mc)" and "consumer_key cn = (t, s)"
    by (metis imageE)
  then have cs: "c_sub cn = s"
    by (simp add: consumer_key_def)
  have "panicked (close_subscriptions w (subscriptions ?mc) ?mc)"
    by (rule close_subscriptions_panics [OF assms(3) assms(4) conn cn cs])
  with con have p: "panicked (Close w ?mc)"
    by (simp add: Close_panicked)
  then have "run script' (Close w ?mc) = Close w ?mc"
    by (rule run_panicked)
  with p con show ?thesis
    by (simp add: Close_when_connected Close_not_connected)
qed

theorem Close_panics_on_active_subscription_witness:
  "NewMessageClient calm_world ''amqp://broker.internal:5672'' [] = Inr demo_client \<and>
   \<not> panicked (run [(calm_world, OpSubscribeToTopic ''topic://trades.filled'' picky_handler)]
                  demo_client) \<and>
   (''topic://trades.filled'', \<lparr>sub_id = 0, sub_dest = ''topic://trades.filled''\<rparr>) \<in>
     set (subscriptions
       (run [(calm_world, OpSubscribeToTopic ''topic://trades.filled'' picky_handler)]
          demo_client)) \<and>
   unsubscribe_err calm_world \<lparr>sub_id = 0, sub_dest = ''topic://trades.filled''\<rparr> = None \<and>
   panicked (Close calm_world
     (run [(calm_world, OpSubscribeToTopic ''topic://trades.filled'' picky_handler)]
        demo_client)) \<and>
   run [(calm_world, OpClose), (calm_world, OpIsConnected)]
     (Close calm_world
       (run [(calm_world, OpSubscribeToTopic ''topic://trades.filled'' picky_handler)]
          demo_client)) =
   Close calm_world
     (run [(calm_world, OpSubscribeToTopic ''topic://trades.filled'' picky_handler)]
        demo_client)"
proof -
  let ?s = "[(calm_world, OpSubscribeToTopic ''topic://trades.filled'' picky_handler)]"
  have h2: "\<not> panicked (run ?s demo_client)"
    unfolding demo_subscribed_run by (simp add: demo_subscribed_eq)
  have h3: "(''topic://trades.filled'', \<lparr>sub_id = 0, sub_dest = ''topic://trades.filled''\<rparr>) \<in>
              set (subscriptions (run ?s demo_client))"
    unfolding demo_subscribed_run by (simp add: demo_subscribed_eq)
  have h4: "unsubscribe_err calm_world \<lparr>sub_id = 0, sub_dest = ''topic://trades.filled''\<rparr> = None"
    by (simp add: calm_world_def)
  note t = Close_panics_on_active_subscription [OF demo_client_new h2 h3 h4,
      of "[(calm_world, OpClose), (calm_world, OpIsConnected)]"]
  show ?thesis
    by (intro conjI demo_client_new h2 h3 h4 t [THEN conjunct1]
          t [THEN conjunct2, THEN conjunct2, THEN conjunct2])
qed

text \<open>
  Claim C7. After \<^verbatim>\<open>Close\<close>, from any state of the client, \<^verbatim>\<open>IsConnected\<close> is
  false after every run of exported operations (publish to a queue or a topic,
  subscribe, unsubscribe, the connection query, close) and consumer turns, against
  any worlds. The script is arbitrary, so this holds after each of its prefixes: the
  session never returns to connected.
\<close>

theorem Closed_is_terminal:
  "\<not> IsConnected (run script (Close w mc))"
  by (simp add: run_not_connected Close_not_connected)

theorem Closed_is_terminal_witness:
  "\<not> IsConnected
     (run [(calm_world, OpSubscribeToTopic ''topic://trades.filled'' picky_handler),
           (calm_world, OpPublishToQueue ''queue://commands.start_bot'' []),
           (calm_world, OpPublishToTopic ''topic://alerts'' []),
           (calm_world, OpUnsubscribe ''topic://trades.filled''),
           (calm_world, OpIsConnected),
           (calm_world, OpReceive 0 \<lparr>msg_err = Some ''connection lost'', msg_body = []\<rparr>),
           (calm_world, OpClose)]
        (Close stormy_world demo_subscribed))"
  by (rule Closed_is_terminal)

subsection \<open>The consumer loop\<close>

text \<open>
  Claim C9. Run the consumer goroutine of a subscription on any sequence of messages
  read from its channel. If none of them carries a receive error, the handler is
  called on every message, in order, whatever errors the handler returned on earlier
  ones; each handler error is written to the log; the goroutine is still waiting for
  the next message; and the client is otherwise unchanged, so the active set is
  untouched. If a message carries a receive error, the handler has been called on the
  messages before it and on none after it, the error is logged, the goroutine exits,
  and its topic is deleted from the active set. So the loop ends the subscription on
  a receive error and on nothing else.
\<close>

theorem consumer_survives_handler_errors:
  "((\<forall>m \<in> set msgs. msg_err m = None) \<longrightarrow>
      consume cn msgs mc =
        (Waiting, map msg_body msgs,
         mc\<lparr>logger := logger mc @ handling_errors cn (map msg_body msgs)\<rparr>)) \<and>
   ((\<forall>m \<in> set pre. msg_err m = None) \<and> msg_err bad = Some e \<longrightarrow>
      consume cn (pre @ bad # post) mc =
        (Exited, map msg_body pre,
         mc\<lparr>subscriptions := AList.delete (c_topic cn) (subscriptions mc),
            logger := logger mc @ handling_errors cn (map msg_body pre) @
              [(ErrorLevel, ''Error receiving message from topic '' @ c_topic cn @ '': '' @ e),
               (InfoLevel, ''Unsubscribed from topic: '' @ c_topic cn)]\<rparr>))"
  using consume_no_receive_error [of msgs cn mc] consume_receive_error [of pre bad e cn post mc]
  by blast


theorem consumer_survives_handler_errors_witness:
  "consume \<lparr>c_topic = ''topic://trades.filled'',
            c_sub = \<lparr>sub_id = 0, sub_dest = ''topic://trades.filled''\<rparr>,
            c_handler = picky_handler\<rparr>
     [\<lparr>msg_err = None, msg_body = ''bad''\<rparr>, \<lparr>msg_err = None, msg_body = ''{}''\<rparr>]
     demo_subscribed =
     (Waiting, [''bad'', ''{}''],
      demo_subscribed\<lparr>logger := logger demo_subscribed @
        [(ErrorLevel, ''Error handling message from topic topic://trades.filled: cannot decode'')]\<rparr>) \<and>
   consume \<lparr>c_topic = ''topic://trades.filled'',
            c_sub = \<lparr>sub_id = 0, sub_dest = ''topic://trades.filled''\<rparr>,
            c_handler = picky_handler\<rparr>
     ([\<lparr>msg_err = None, msg_body = ''bad''\<rparr>] @
      \<lparr>msg_err = Some ''connection lost'', msg_body = []\<rparr> #
      [\<lparr>msg_err = None, msg_body = ''{}''\<rparr>])
     demo_subscribed =
     (Exited, [''bad''],
      demo_subscribed\<lparr>subscriptions := [],
        logger := logger demo_subscribed @
        [(ErrorLevel, ''Error handling message from topic topic://trades.filled: cannot decode''),
         (ErrorLevel, ''Error receiving message from topic topic://trades.filled: connection lost''),
         (InfoLevel, ''Unsubscribed from topic: topic://trades.filled'')]\<rparr>)"
proof -
  let ?cn = "\<lparr>c_topic = ''topic://trades.filled'',
            c_sub = \<lparr>sub_id = 0, sub_dest = ''topic://trades.filled''\<rparr>,
            c_handler = picky_handler\<rparr>"
  let ?ok = "[\<lparr>msg_err = None, msg_body = ''bad''\<rparr>, \<lparr>msg_err = None, msg_body = ''{}''\<rparr>]"
  let ?pre = "[\<lparr>msg_err = None, msg_body = ''bad''\<rparr>]"
  let ?lost = "\<lparr>msg_err = Some ''connection lost'', msg_body = []\<rparr>"
  note t = consumer_survives_handler_errors [where msgs = ?ok and cn = ?cn
      and mc = demo_subscribed and pre = ?pre and bad = ?lost and e = "''connection lost''"
      and post = "[\<lparr>msg_err = None, msg_body = ''{}''\<rparr>]"]
  have h1: "\<forall>m \<in> set ?ok. msg_err m = None"
    by simp
  have h2: "(\<forall>m \<in> set ?pre. msg_err m = None) \<and> msg_err ?lost = Some ''connection lost''"
    by simp
  have e1: "handling_errors ?cn (map msg_body ?ok) =
              [(ErrorLevel, ''Error handling message from topic topic://trades.filled: cannot decode'')]"
    by (simp add: handling_errors_def picky_handler_def)
  have e2: "handling_errors ?cn (map msg_body ?pre) =
              [(ErrorLevel, ''Error handling message from topic topic://trades.filled: cannot decode'')]"
    by (simp add: handling_errors_def picky_handler_def)
  have d: "AList.delete (c_topic ?cn) (subscriptions demo_subscribed) = []"
    by (simp add: demo_subscribed_eq)
  have r1: "consume ?cn ?ok demo_subscribed =
        (Waiting, map msg_body ?ok,
         demo_subscribed\<lparr>logger := logger demo_subscribed @ handling_errors ?cn (map msg_body ?ok)\<rparr>)"
    by (rule mp [OF conjunct1 [OF t] h1])
  have r2: "consume ?cn (?pre @ ?lost # [\<lparr>msg_err = None, msg_body = ''{}''\<rparr>]) demo_subscribed =
        (Exited, map msg_body ?pre,
         demo_subscribed\<lparr>subscriptions := AList.delete (c_topic ?cn) (subscriptions demo_subscribed),
            logger := logger demo_subscribed @ handling_errors ?cn (map msg_body ?pre) @
              [(ErrorLevel, ''Error receiving message from topic '' @ c_topic ?cn @ '': '' @ ''connection lost''),
               (InfoLevel, ''Unsubscribed from topic: '' @ c_topic ?cn)]\<rparr>)"
    by (rule mp [OF conjunct2 [OF t] h2])
  show ?thesis
    unfolding r1 r2 e1 e2 d by simp
qed

subsection \<open>The address dialled\<close>

text \<open>
  Claim C10. Whatever broker URL is passed to \<^verbatim>\<open>NewMessageClient\<close>: when it
  succeeds, the connection's peer is \<open>artemis-service:61613\<close> (host
  \<open>artemis-service\<close>, port \<open>61613\<close>) and any other URL gives the same client
  but for the stored \<open>url\<close> field; when it fails, any other URL gives the same error;
  and the outcome depends on the world only through what dialling and the STOMP
  handshake answer at that one address.
\<close>

theorem connect_dials_fixed_address:
  "(\<forall>mc. NewMessageClient w u lg = Inr mc \<longrightarrow>
      (\<exists>c. conn mc = Some c \<and> peer c = ''artemis-service:61613'') \<and>
      NewMessageClient w u' lg = Inr (mc\<lparr>url := u'\<rparr>)) \<and>
   (\<forall>e. NewMessageClient w u lg = Inl e \<longrightarrow> NewMessageClient w u' lg = Inl e) \<and>
   (dial_err w ''tcp'' ''artemis-service:61613'' = dial_err w' ''tcp'' ''artemis-service:61613'' \<and>
    stomp_err w ''artemis-service:61613'' = stomp_err w' ''artemis-service:61613'' \<longrightarrow>
      NewMessageClient w u lg = NewMessageClient w' u lg)"
  by (auto simp: NewMessageClient_def connect_def Let_def JoinHostPort_def log_to_def
        split: option.splits)


theorem connect_dials_fixed_address_witness:
  "NewMessageClient calm_world ''amqp://broker.internal:5672'' [] = Inr demo_client \<and>
   (\<exists>c. conn demo_client = Some c \<and> peer c = ''artemis-service:61613'') \<and>
   NewMessageClient calm_world ''stomp://localhost:61613'' [] =
     Inr (demo_client\<lparr>url := ''stomp://localhost:61613''\<rparr>) \<and>
   NewMessageClient stormy_world ''amqp://broker.internal:5672'' [] =
     Inl (ErrDial ''connection refused'') \<and>
   NewMessageClient stormy_world ''stomp://localhost:61613'' [] =
     Inl (ErrDial ''connection refused'') \<and>
   NewMessageClient single_route_world ''stomp://localhost:61613'' [] =
     NewMessageClient calm_world ''stomp://localhost:61613'' []"
proof -
  note t1 = connect_dials_fixed_address [where w = calm_world
      and u = "''amqp://broker.internal:5672''" and lg = "[]"
      and u' = "''stomp://localhost:61613''" and w' = calm_world]
  note t2 = connect_dials_fixed_address [where w = stormy_world
      and u = "''amqp://broker.internal:5672''" and lg = "[]"
      and u' = "''stomp://localhost:61613''" and w' = stormy_world]
  note t3 = connect_dials_fixed_address [where w = single_route_world
      and u = "''stomp://localhost:61613''" and lg = "[]"
      and u' = "''stomp://localhost:61613''" and w' = calm_world]
  have s: "NewMessageClient stormy_world ''amqp://broker.internal:5672'' [] =
             Inl (ErrDial ''connection refused'')"
    by (simp add: NewMessageClient_def connect_def stormy_world_def JoinHostPort_def)
  have a: "dial_err single_route_world ''tcp'' ''artemis-service:61613'' =
             dial_err calm_world ''tcp'' ''artemis-service:61613'' \<and>
           stomp_err single_route_world ''artemis-service:61613'' =
             stomp_err calm_world ''artemis-service:61613''"
    by (simp add: calm_world_def single_route_world_def)
  have r1: "(\<exists>c. conn demo_client = Some c \<and> peer c = ''artemis-service:61613'') \<and>
            NewMessageClient calm_world ''stomp://localhost:61613'' [] =
              Inr (demo_client\<lparr>url := ''stomp://localhost:61613''\<rparr>)"
    by (rule mp [OF spec [OF conjunct1 [OF t1]] demo_client_new])
  have r2: "NewMessageClient stormy_world ''stomp://localhost:61613'' [] =
              Inl (ErrDial ''connection refused'')"
    by (rule mp [OF spec [OF conjunct1 [OF conjunct2 [OF t2]]] s])
  have r3: "NewMessageClient single_route_world ''stomp://localhost:61613'' [] =
              NewMessageClient calm_world ''stomp://localhost:61613'' []"
    by (rule mp [OF conjunct2 [OF conjunct2 [OF t3]] a])
  from demo_client_new r1 s r2 r3 show ?thesis
    by (intro conjI) (erule conjunct1 conjunct2 | assumption)+
qed

section \<open>Properties of the command handlers\<close>

lemma closed_client_not_connected: "\<not> IsConnected (Close calm_world demo_client)"
  by (rule Close_not_connected)

lemma PublishToQueue_refused:
  assumes "\<forall>d b. send_err w d b \<noteq> None"
  shows "fst (PublishToQueue w d m mc) \<noteq> None"
proof (cases "IsConnected mc")
  case False
  then show ?thesis by (simp add: PublishToQueue_def)
next
  case True
  show ?thesis
  proof (cases "marshal w m")
    case (Inl e)
    with True show ?thesis by (simp add: PublishToQueue_def)
  next
    case (Inr data)
    from assms obtain e where "send_err w d data = Some e"
      by blast
    with True Inr show ?thesis
      by (simp add: PublishToQueue_def split: option.splits)
  qed
qed

lemma handler_status_on_error:
  assumes "messageClient g = Some mc"
  shows "fst (PublishToQueue w ''queue://commands.start_bot''
               [(''command'', JString ''start''), (''botId'', JString (start_BotID r1)),
                (''config'', start_Config r1), (''timestamp'', JString now)] mc) \<noteq> None \<Longrightarrow>
         status (fst (handleStartBot w now (Inr r1) g)) = StatusInternalServerError"
    and "fst (PublishToQueue w ''queue://commands.stop_bot''
               [(''command'', JString ''stop''), (''botId'', JString (stop_BotID r2)),
                (''timestamp'', JString now)] mc) \<noteq> None \<Longrightarrow>
         status (fst (handleStopBot w now (Inr r2) g)) = StatusInternalServerError"
    and "fst (PublishToQueue w ''queue://commands.fetch.history''
               [(''command'', JString ''fetch_history''), (''symbol'', JString (Symbol r3)),
                (''startDate'', JString (StartDate r3)), (''endDate'', JString (EndDate r3)),
                (''timestamp'', JString now)] mc) \<noteq> None \<Longrightarrow>
         status (fst (handleFetchHistory w now (Inr r3) g)) = StatusInternalServerError"
  using assms
  by (auto simp: handleStartBot_def handleStopBot_def handleFetchHistory_def Let_def
        split: prod.splits option.splits)

text \<open>
  Claim C8, as the code has it. For the three command handlers and every well-formed
  body: when the gateway holds no broker client (the connect at start-up failed and
  \<^verbatim>\<open>messageClient\<close> is \<^verbatim>\<open>nil\<close>), the answer is 503 Service Unavailable; when it
  holds a client that is not connected, or a client whose transport refuses every
  write, the publish fails and the answer is 500 Internal Server Error.
\<close>

theorem command_handlers_broker_unavailable:
  "(messageClient g = None \<longrightarrow>
      status (fst (handleStartBot w now (Inr r1) g)) = StatusServiceUnavailable \<and>
      status (fst (handleStopBot w now (Inr r2) g)) = StatusServiceUnavailable \<and>
      status (fst (handleFetchHistory w now (Inr r3) g)) = StatusServiceUnavailable) \<and>
   (\<forall>mc. messageClient g = Some mc \<and> \<not> IsConnected mc \<longrightarrow>
      status (fst (handleStartBot w now (Inr r1) g)) = StatusInternalServerError \<and>
      status (fst (handleStopBot w now (Inr r2) g)) = StatusInternalServerError \<and>
      status (fst (handleFetchHistory w now (Inr r3) g)) = StatusInternalServerError) \<and>
   (\<forall>mc. messageClient g = Some mc \<and> (\<forall>d b. send_err w d b \<noteq> None) \<longrightarrow>
      status (fst (handleStartBot w now (Inr r1) g)) = StatusInternalServerError \<and>
      status (fst (handleStopBot w now (Inr r2) g)) = StatusInternalServerError \<and>
      status (fst (handleFetchHistory w now (Inr r3) g)) = StatusInternalServerError)"
proof (intro conjI allI impI)
  assume "messageClient g = None"
  then show "status (fst (handleStartBot w now (Inr r1) g)) = StatusServiceUnavailable"
    and "status (fst (handleStopBot w now (Inr r2) g)) = StatusServiceUnavailable"
    and "status (fst (handleFetchHistory w now (Inr r3) g)) = StatusServiceUnavailable"
    by (simp_all add: handleStartBot_def handleStopBot_def handleFetchHistory_def)
next
  fix mc
  assume a: "messageClient g = Some mc \<and> \<not> IsConnected mc"
  then have m: "messageClient g = Some mc" and n: "\<not> IsConnected mc"
    by simp_all
  from n have "fst (PublishToQueue w d msg mc) \<noteq> None" for d and msg :: command
    by (simp add: PublishToQueue_def)
  then show "status (fst (handleStartBot w now (Inr r1) g)) = StatusInternalServerError"
    and "status (fst (handleStopBot w now (Inr r2) g)) = StatusInternalServerError"
    and "status (fst (handleFetchHistory w now (Inr r3) g)) = StatusInternalServerError"
    using handler_status_on_error [OF m] by blast+
next
  fix mc
  assume a: "messageClient g = Some mc \<and> (\<forall>d b. send_err w d b \<noteq> None)"
  then have m: "messageClient g = Some mc" and r: "\<forall>d b. send_err w d b \<noteq> None"
    by simp_all
  have "fst (PublishToQueue w d msg mc) \<noteq> None" for d and msg :: command
    by (rule PublishToQueue_refused [OF r])
  then show "status (fst (handleStartBot w now (Inr r1) g)) = StatusInternalServerError"
    and "status (fst (handleStopBot w now (Inr r2) g)) = StatusInternalServerError"
    and "status (fst (handleFetchHistory w now (Inr r3) g)) = StatusInternalServerError"
    using handler_status_on_error [OF m] by blast+
qed

theorem command_handlers_broker_unavailable_witness:
  "messageClient no_broker_gateway = None \<and>
   status (fst (handleStartBot calm_world ''2024-03-01T12:00:00Z'' start_body no_broker_gateway)) = 503 \<and>
   status (fst (handleStopBot calm_world ''2024-03-01T12:00:00Z'' stop_body no_broker_gateway)) = 503 \<and>
   status (fst (handleFetchHistory calm_world ''2024-03-01T12:00:00Z'' history_body no_broker_gateway)) = 503 \<and>
   messageClient closed_gateway = Some (Close calm_world demo_client) \<and>
   \<not> IsConnected (Close calm_world demo_client) \<and>
   status (fst (handleStartBot calm_world ''2024-03-01T12:00:00Z'' start_body closed_gateway)) = 500 \<and>
   status (fst (handleStopBot calm_world ''2024-03-01T12:00:00Z'' stop_body closed_gateway)) = 500 \<and>
   status (fst (handleFetchHistory calm_world ''2024-03-01T12:00:00Z'' history_body closed_gateway)) = 500 \<and>
   messageClient live_gateway = Some demo_client \<and> IsConnected demo_client \<and>
   marshal deaf_world [] = Inr ''{}'' \<and>
   (\<forall>d b. send_err deaf_world d b \<noteq> None) \<and>
   status (fst (handleStartBot deaf_world ''2024-03-01T12:00:00Z'' start_body live_gateway)) = 500 \<and>
   status (fst (handleStopBot deaf_world ''2024-03-01T12:00:00Z'' stop_body live_gateway)) = 500 \<and>
   status (fst (handleFetchHistory deaf_world ''2024-03-01T12:00:00Z'' history_body live_gateway)) = 500"
proof -
  note t1 = command_handlers_broker_unavailable [where g = no_broker_gateway and w = calm_world
      and now = "''2024-03-01T12:00:00Z''" and ?r1.0 = "StartBotRequest ''bot-7'' JNull"
      and ?r2.0 = "StopBotRequest ''bot-7''"
      and ?r3.0 = "FetchHistoryRequest ''BTC-USD'' ''2024-01-01T00:00:00Z'' ''2024-02-01T00:00:00Z''"]
  note t2 = command_handlers_broker_unavailable [where g = closed_gateway and w = calm_world
      and now = "''2024-03-01T12:00:00Z''" and ?r1.0 = "StartBotRequest ''bot-7'' JNull"
      and ?r2.0 = "StopBotRequest ''bot-7''"
      and ?r3.0 = "FetchHistoryRequest ''BTC-USD'' ''2024-01-01T00:00:00Z'' ''2024-02-01T00:00:00Z''"]
  note t3 = command_handlers_broker_unavailable [where g = live_gateway and w = deaf_world
      and now = "''2024-03-01T12:00:00Z''" and ?r1.0 = "StartBotRequest ''bot-7'' JNull"
      and ?r2.0 = "StopBotRequest ''bot-7''"
      and ?r3.0 = "FetchHistoryRequest ''BTC-USD'' ''2024-01-01T00:00:00Z'' ''2024-02-01T00:00:00Z''"]
  have h1: "messageClient no_broker_gateway = None"
    by (simp add: no_broker_gateway_def)
  have h2: "messageClient closed_gateway = Some (Close calm_world demo_client) \<and>
            \<not> IsConnected (Close calm_world demo_client)"
    by (simp add: closed_gateway_def closed_client_not_connected)
  have h3: "messageClient live_gateway = Some demo_client \<and>
            (\<forall>d b. send_err deaf_world d b \<noteq> None)"
    by (simp add: live_gateway_def deaf_world_def)
  have m: "marshal deaf_world [] = Inr ''{}''"
    by (simp add: deaf_world_def)
  have c: "IsConnected demo_client"
    by (simp add: IsConnected_def demo_client_def)
  note r1 = mp [OF conjunct1 [OF t1] h1]
  note r2 = mp [OF spec [OF conjunct1 [OF conjunct2 [OF t2]]] h2]
  note r3 = mp [OF spec [OF conjunct2 [OF conjunct2 [OF t3]]] h3]
  from h1 h2 h3 m c r1 r2 r3 show ?thesis
    by (simp add: start_body_def stop_body_def history_body_def StatusServiceUnavailable_def
          StatusInternalServerError_def)
qed

text \<open>
  A broker that cannot be reached is not always answered with 503: the gateway
  below holds a client that has been closed, and a well-formed start-bot request is
  answered 500 with the error \<open>Failed to send command\<close>.
\<close>

theorem command_handlers_counterexample:
  "messageClient closed_gateway = Some (Close calm_world demo_client) \<and>
   \<not> IsConnected (Close calm_world demo_client) \<and>
   fst (handleStartBot calm_world ''2024-03-01T12:00:00Z'' start_body closed_gateway) =
     \<lparr>status = 500, payload = [(''error'', ''Failed to send command'')]\<rparr> \<and>
   status (fst (handleStartBot calm_world ''2024-03-01T12:00:00Z'' start_body closed_gateway)) \<noteq>
     StatusServiceUnavailable"
  by (simp add: closed_gateway_def closed_client_not_connected handleStartBot_def start_body_def
        PublishToQueue_def StatusServiceUnavailable_def StatusInternalServerError_def)

section \<open>Properties of the hub\<close>

text \<open>
  The ids in the registry are pairwise distinct and below the next id to be issued;
  \<open>register\<close>, \<open>unregister\<close> and \<open>broadcast\<close> keep it so.
\<close>

lemma register_keeps_ids_distinct:
  assumes "distinct (registry h)" and "\<forall>i \<in> set (registry h). i < next_id h"
  shows "distinct (registry (snd (register c h)))"
    and "\<forall>i \<in> set (registry (snd (register c h))). i < next_id (snd (register c h))"
  using assms by (auto simp: register_def)

lemma unregister_keeps_ids_distinct:
  assumes "distinct (registry h)" and "\<forall>i \<in> set (registry h). i < next_id h"
  shows "distinct (registry (unregister j h))"
    and "\<forall>i \<in> set (registry (unregister j h)). i < next_id (unregister j h)"
  using assms by (auto simp: unregister_def distinct_removeAll)

lemma deliver_keeps_ids_distinct:
  assumes "distinct (registry h)" and "\<forall>i \<in> set (registry h). i < next_id h"
  shows "distinct (registry (deliver e j h)) \<and>
         (\<forall>i \<in> set (registry (deliver e j h)). i < next_id (deliver e j h))"
  using assms by (auto simp: deliver_def unregister_def distinct_removeAll split: option.splits)

lemma broadcast_keeps_ids_distinct:
  assumes "distinct (registry h)" and "\<forall>i \<in> set (registry h). i < next_id h"
  shows "distinct (registry (snd (broadcast e h))) \<and>
         (\<forall>i \<in> set (registry (snd (broadcast e h))). i < next_id (snd (broadcast e h)))"
proof -
  have "distinct (registry (fold (deliver e) ids h)) \<and>
        (\<forall>i \<in> set (registry (fold (deliver e) ids h)). i < next_id (fold (deliver e) ids h))"
    for ids
    using assms
  proof (induction ids arbitrary: h)
    case Nil
    then show ?case by simp
  next
    case (Cons j ids)
    from deliver_keeps_ids_distinct [OF Cons.prems, of e j]
    show ?case using Cons.IH [of "deliver e j h"] by simp
  qed
  then show ?thesis by (simp add: broadcast_def)
qed

lemma deliver_store_other:
  "j \<noteq> i \<Longrightarrow> store (deliver e i h) j = store h j"
  by (simp add: deliver_def unregister_def split: option.splits)

lemma deliver_registry_other:
  "j \<noteq> i \<Longrightarrow> (j \<in> set (registry (deliver e i h))) = (j \<in> set (registry h))"
  by (simp add: deliver_def unregister_def split: option.splits)

lemma deliver_cong:
  assumes "store h1 i = store h2 i"
    and "(i \<in> set (registry h1)) = (i \<in> set (registry h2))"
  shows "store (deliver e i h1) i = store (deliver e i h2) i"
    and "(i \<in> set (registry (deliver e i h1))) = (i \<in> set (registry (deliver e i h2)))"
  using assms by (auto simp: deliver_def unregister_def split: option.splits)

lemma fold_deliver:
  "distinct ids \<Longrightarrow>
   store (fold (deliver e) ids h) i =
     (if i \<in> set ids then store (deliver e i h) i else store h i) \<and>
   (i \<in> set (registry (fold (deliver e) ids h))) =
     (if i \<in> set ids then i \<in> set (registry (deliver e i h)) else i \<in> set (registry h))"
proof (induction ids arbitrary: h)
  case Nil
  then show ?case by simp
next
  case (Cons j ids)
  from Cons.prems have d: "distinct ids" and nj: "j \<notin> set ids"
    by simp_all
  note IH = Cons.IH [OF d, of "deliver e j h"]
  show ?case
  proof (cases "i = j")
    case True
    with nj IH show ?thesis by simp
  next
    case False
    then have s: "store (deliver e j h) i = store h i"
      and r: "(i \<in> set (registry (deliver e j h))) = (i \<in> set (registry h))"
      by (simp_all add: deliver_store_other deliver_registry_other)
    show ?thesis
    proof (cases "i \<in> set ids")
      case True
      with IH False deliver_cong [OF s r, of e] show ?thesis by simp
    next
      case False
      with IH \<open>i \<noteq> j\<close> s r show ?thesis by simp
    qed
  qed
qed

text \<open>
  Claim C1. \<open>broadcast e\<close> reports no error to its caller, whatever happens at the
  single connections. It hands \<open>e\<close> to every connection registered at the call, by
  the non-blocking enqueue of the hub: a registered connection whose queue has room
  has \<open>e\<close> appended at the end of its queue and stays registered; for a registered
  connection whose queue is full the delivery fails, and this failure stays with that
  connection, which is closed and unregistered. A connection not registered at the
  call (never registered, or unregistered before) is left exactly as it was: nothing
  is delivered to it and it is not registered afterwards.
\<close>

theorem broadcast_spec:
  assumes "distinct (registry h)"
  shows "fst (broadcast e h) = None \<and>
    (\<forall>i c. i \<in> set (registry h) \<and> store h i = Some c \<and> length (queue c) < capacity c \<longrightarrow>
       store (snd (broadcast e h)) i = Some (c\<lparr>queue := queue c @ [e]\<rparr>) \<and>
       i \<in> set (registry (snd (broadcast e h)))) \<and>
    (\<forall>i c. i \<in> set (registry h) \<and> store h i = Some c \<and> capacity c \<le> length (queue c) \<longrightarrow>
       store (snd (broadcast e h)) i = Some (c\<lparr>cstate := Closed\<rparr>) \<and>
       i \<notin> set (registry (snd (broadcast e h)))) \<and>
    (\<forall>i. i \<notin> set (registry h) \<longrightarrow>
       store (snd (broadcast e h)) i = store h i \<and>
       i \<notin> set (registry (snd (broadcast e h))))"
proof -
  note f = fold_deliver [OF assms, of e h]
  have room: "store (deliver e i h) i = Some (c\<lparr>queue := queue c @ [e]\<rparr>) \<and>
              i \<in> set (registry (deliver e i h))"
    if "i \<in> set (registry h)" "store h i = Some c" "length (queue c) < capacity c" for i c
    using that by (simp add: deliver_def enqueue_def)
  have full: "store (deliver e i h) i = Some (c\<lparr>cstate := Closed\<rparr>) \<and>
              i \<notin> set (registry (deliver e i h))"
    if "i \<in> set (registry h)" "store h i = Some c" "capacity c \<le> length (queue c)" for i c
    using that by (simp add: deliver_def enqueue_def unregister_def)
  show ?thesis
    using f room full by (simp add: broadcast_def)
qed

theorem broadcast_spec_witness:
  "distinct (registry demo_hub) \<and>
   fst (broadcast trade_envelope demo_hub) = None \<and>
   0 \<in> set (registry demo_hub) \<and> store demo_hub 0 = Some roomy_connection \<and>
   store (snd (broadcast trade_envelope demo_hub)) 0 =
     Some (roomy_connection\<lparr>queue := [trade_envelope]\<rparr>) \<and>
   0 \<in> set (registry (snd (broadcast trade_envelope demo_hub))) \<and>
   1 \<in> set (registry demo_hub) \<and> store demo_hub 1 = Some full_connection \<and>
   store (snd (broadcast trade_envelope demo_hub)) 1 =
     Some (full_connection\<lparr>cstate := Closed\<rparr>) \<and>
   1 \<notin> set (registry (snd (broadcast trade_envelope demo_hub))) \<and>
   2 \<notin> set (registry demo_hub) \<and>
   store (snd (broadcast trade_envelope demo_hub)) 2 = store demo_hub 2"
proof -
  have d: "distinct (registry demo_hub)"
    by (simp add: demo_hub_def)
  note t = broadcast_spec [OF d, of trade_envelope]
  have h0: "0 \<in> set (registry demo_hub) \<and> store demo_hub 0 = Some roomy_connection \<and>
            length (queue roomy_connection) < capacity roomy_connection"
    by (simp add: demo_hub_def roomy_connection_def)
  have h1: "1 \<in> set (registry demo_hub) \<and> store demo_hub 1 = Some full_connection \<and>
            capacity full_connection \<le> length (queue full_connection)"
    by (simp add: demo_hub_def full_connection_def)
  have h2: "2 \<notin> set (registry demo_hub)"
    by (simp add: demo_hub_def)
  have q: "roomy_connection\<lparr>queue := queue roomy_connection @ [trade_envelope]\<rparr> =
           roomy_connection\<lparr>queue := [trade_envelope]\<rparr>"
    by (simp add: roomy_connection_def)
  from t h0 have r0:
    "store (snd (broadcast trade_envelope demo_hub)) 0 =
       Some (roomy_connection\<lparr>queue := queue roomy_connection @ [trade_envelope]\<rparr>) \<and>
     0 \<in> set (registry (snd (broadcast trade_envelope demo_hub)))"
    by blast
  from t h1 have r1:
    "store (snd (broadcast trade_envelope demo_hub)) 1 = Some (full_connection\<lparr>cstate := Closed\<rparr>) \<and>
     1 \<notin> set (registry (snd (broadcast trade_envelope demo_hub)))"
    by blast
  from t h2 have r2:
    "store (snd (broadcast trade_envelope demo_hub)) 2 = store demo_hub 2"
    by blast
  from t have r3: "fst (broadcast trade_envelope demo_hub) = None"
    by blast
  from d h0 h1 h2 r0 r1 r2 r3 show ?thesis
    unfolding q by blast
qed

end
